theory Spec2Isabelle
  imports Main "HOL-Library.List_Lexorder" "HOL-Library.Char_ord" "HOL-Library.Multiset"
begin

section \<open>Data model (src/lib/types.ts, lib/config.ts)\<close>

text \<open>
  \<^verbatim>\<open>StepStatus = 'pending' | 'running' | 'success' | 'error' | 'skipped'\<close>
\<close>

datatype StepStatus = Pending | Running | Success | Error | Skipped

text \<open>
  \<^verbatim>\<open>interface Step { id; name; status; message?; duration? }\<close>.
  The field \<open>id\<close> is called \<open>step_id\<close> here (\<open>id\<close> is the identity function of HOL).
\<close>

record Step =
  step_id :: string
  name :: string
  status :: StepStatus
  message :: "string option"
  duration :: "nat option"

text \<open>
  The \<^verbatim>\<open>Partial<Step>\<close> objects that the orchestrator passes to \<^verbatim>\<open>updateStep\<close>: every
  call site gives an object literal with some of the keys status, message and duration, so
  these are the keys of the model; an absent key is \<open>None\<close>.
\<close>

record StepPartial =
  p_status :: "StepStatus option"
  p_message :: "string option"
  p_duration :: "nat option"

definition no_update :: StepPartial where
  "no_update = \<lparr>p_status = None, p_message = None, p_duration = None\<rparr>"

text \<open>\<^verbatim>\<open>{ ...s, ...updates }\<close>: the keys present in the update win.\<close>

definition spread :: "Step \<Rightarrow> StepPartial \<Rightarrow> Step" where
  "spread s u =
     s\<lparr>status := (case p_status u of None \<Rightarrow> status s | Some v \<Rightarrow> v),
       message := (case p_message u of None \<Rightarrow> message s | Some v \<Rightarrow> Some v),
       duration := (case p_duration u of None \<Rightarrow> duration s | Some v \<Rightarrow> Some v)\<rparr>"

text \<open>
  \<^verbatim>\<open>updateStep(id, updates)\<close>: \<^verbatim>\<open>prev.map(s => s.id === id ? { ...s, ...updates } : s)\<close>.
\<close>

definition updateStep :: "string \<Rightarrow> StepPartial \<Rightarrow> Step list \<Rightarrow> Step list" where
  "updateStep i u prev = map (\<lambda>s. if step_id s = i then spread s u else s) prev"

text \<open>
  The project configuration. \<open>services\<close> is the object of the configuration file as the
  list of its own entries, in the order of \<^verbatim>\<open>Object.keys\<close>; the field \<open>context\<close> of a
  service is \<open>build_context\<close> here.
\<close>

record Service =
  functionId :: string
  dockerfile :: string
  build_context :: string
  imageName :: string
  platform :: "string option"

record Registry =
  url :: string
  namespace :: string

record ProjectConfig =
  project_name :: string
  registry :: Registry
  services :: "(string \<times> Service) list"

text \<open>
  \<^verbatim>\<open>DeployOptions\<close>: the optional fields \<open>skipBuild\<close>, \<open>skipPush\<close> and \<open>dryRun\<close> are only
  tested for truth, so an absent one is \<open>False\<close>; \<open>services\<close> is \<open>opt_services\<close>.
\<close>

record DeployOptions =
  opt_services :: "string list option"
  versions :: "string \<rightharpoonup> string"
  skipBuild :: bool
  skipPush :: bool
  dryRun :: bool

record Credentials =
  accessKeyId :: string
  secretAccessKey :: string
  region :: string

section \<open>Planning the run (DeployApp.tsx, first effect)\<close>

text \<open>
  \<^verbatim>\<open>options.services?.length ? options.services : Object.keys(config.services)\<close>
\<close>

definition servicesToDeploy :: "DeployOptions \<Rightarrow> ProjectConfig \<Rightarrow> string list" where
  "servicesToDeploy options config =
     (case opt_services options of
        None \<Rightarrow> map fst (services config)
      | Some [] \<Rightarrow> map fst (services config)
      | Some (s # ss) \<Rightarrow> s # ss)"

definition mkStep :: "string \<Rightarrow> string \<Rightarrow> StepStatus \<Rightarrow> Step" where
  "mkStep i n st = \<lparr>step_id = i, name = n, status = st, message = None, duration = None\<rparr>"

text \<open>The six steps pushed for one service, in the order of the source.\<close>

definition serviceSteps :: "DeployOptions \<Rightarrow> string \<Rightarrow> Step list" where
  "serviceSteps options serviceName =
     [mkStep (serviceName @ ''-build'') (''Build '' @ serviceName)
        (if skipBuild options then Skipped else Pending),
      mkStep (serviceName @ ''-push'') (''Push '' @ serviceName)
        (if skipPush options then Skipped else Pending),
      mkStep (serviceName @ ''-update'') (''Update '' @ serviceName) Pending,
      mkStep (serviceName @ ''-sync'') (''Sync '' @ serviceName) Pending,
      mkStep (serviceName @ ''-release'') (''Release '' @ serviceName) Pending,
      mkStep (serviceName @ ''-wait-release'') (''Wait Release '' @ serviceName) Pending]"

text \<open>The loop \<^verbatim>\<open>for (const serviceName of servicesToDeploy) initialSteps.push(...)\<close>.\<close>

fun initialSteps :: "DeployOptions \<Rightarrow> string list \<Rightarrow> Step list" where
  "initialSteps options [] = []"
| "initialSteps options (serviceName # rest) =
     serviceSteps options serviceName @ initialSteps options rest"


section \<open>The signer (lib/volcengine-signer.ts)\<close>

text \<open>
  Strings are byte strings (UTF-8). SHA-256 and HMAC-SHA256 are Node's \<^verbatim>\<open>crypto\<close>; the model
  takes the two digest functions as parameters and writes out the hexadecimal encoding.
\<close>

record Crypto =
  sha256_digest :: "string \<Rightarrow> string"
  hmac_digest :: "string \<Rightarrow> string \<Rightarrow> string"

definition hex_digit :: "nat \<Rightarrow> char" where
  "hex_digit n = ''0123456789abcdef'' ! (n mod 16)"

definition hex :: "string \<Rightarrow> string" where
  "hex bytes = concat (map (\<lambda>c. [hex_digit (of_char c div 16), hex_digit (of_char c)]) bytes)"

text \<open>\<^verbatim>\<open>createHash('sha256').update(data, 'utf8').digest('hex')\<close>\<close>

definition sha256 :: "Crypto \<Rightarrow> string \<Rightarrow> string" where
  "sha256 C data = hex (sha256_digest C data)"

text \<open>\<^verbatim>\<open>createHmac('sha256', key).update(data, 'utf8').digest()\<close>, and with \<^verbatim>\<open>digest('hex')\<close>.\<close>

definition hmacSha256 :: "Crypto \<Rightarrow> string \<Rightarrow> string \<Rightarrow> string" where
  "hmacSha256 C key data = hmac_digest C key data"

definition hmacSha256Hex :: "Crypto \<Rightarrow> string \<Rightarrow> string \<Rightarrow> string" where
  "hmacSha256Hex C key data = hex (hmac_digest C key data)"

text \<open>\<^verbatim>\<open>Array.prototype.join\<close> on strings.\<close>

fun join :: "string \<Rightarrow> string list \<Rightarrow> string" where
  "join sep [] = []"
| "join sep [x] = x"
| "join sep (x # y # ys) = x @ sep @ join sep (y # ys)"

definition newline :: string where
  "newline = [CHR 0x0A]"

text \<open>
  \<^verbatim>\<open>encodeURIComponent\<close> on a well-formed string: the bytes of its UTF-8 encoding, each kept
  if it is one of \<^verbatim>\<open>A-Z a-z 0-9 - _ . ! ~ * ' ( )\<close> and written \<^verbatim>\<open>%XX\<close> (upper case) otherwise.
\<close>

definition uri_unreserved :: "char \<Rightarrow> bool" where
  "uri_unreserved c =
     (c \<in> set (''ABCDEFGHIJKLMNOPQRSTUVWXYZabcdefghijklmnopqrstuvwxyz0123456789-_.!~*()''
               @ [CHR 0x27]))"

definition upper_hex_digit :: "nat \<Rightarrow> char" where
  "upper_hex_digit n = ''0123456789ABCDEF'' ! (n mod 16)"

definition encodeURIComponent :: "string \<Rightarrow> string" where
  "encodeURIComponent s =
     concat (map (\<lambda>c. if uri_unreserved c then [c]
                       else [CHR ''%'', upper_hex_digit (of_char c div 16),
                             upper_hex_digit (of_char c)]) s)"

text \<open>
  \<^verbatim>\<open>String.prototype.trim\<close>, for the white space of ASCII (space, tab, line feed, vertical
  tab, form feed, carriage return).
\<close>

definition is_space :: "char \<Rightarrow> bool" where
  "is_space c = (c \<in> set [CHR 0x20, CHR 0x09, CHR 0x0A, CHR 0x0B, CHR 0x0C, CHR 0x0D])"

definition trim :: "string \<Rightarrow> string" where
  "trim s = rev (dropWhile is_space (rev (dropWhile is_space s)))"

text \<open>
  Reading a property that the object has: \<^verbatim>\<open>obj[key]\<close> for a key taken from
  \<^verbatim>\<open>Object.keys(obj)\<close>.
\<close>

definition own :: "(string \<times> 'a) list \<Rightarrow> string \<Rightarrow> 'a" where
  "own obj key = the (map_of obj key)"

record SignerConfig = Credentials +
  service :: string

record RequestOptions =
  req_method :: string
  req_host :: string
  req_path :: string
  req_query :: "(string \<times> string) list option"
  req_headers :: "(string \<times> string) list option"
  req_body :: "string option"

text \<open>
  \<^verbatim>\<open>getCanonicalQueryString\<close>: empty for an absent or empty query, else the keys sorted,
  each as \<^verbatim>\<open>encodeURIComponent(key)=encodeURIComponent(query[key])\<close>, joined with \<^verbatim>\<open>&\<close>.
  A query is an object: its keys are distinct.
\<close>

definition getCanonicalQueryString :: "(string \<times> string) list option \<Rightarrow> string" where
  "getCanonicalQueryString query =
     (case query of
        None \<Rightarrow> []
      | Some q \<Rightarrow>
          if length (map fst q) = 0 then []
          else join ''&''
                 (map (\<lambda>key. encodeURIComponent key @ ''='' @ encodeURIComponent (own q key))
                    (sort (map fst q))))"

text \<open>
  The two time stamps, from \<^verbatim>\<open>now.toISOString()\<close> (the parameter \<open>isoNow\<close>):
  \<^verbatim>\<open>iso.slice(0, 10).replace(/-/g, '')\<close> and
  \<^verbatim>\<open>iso.replace(/[-:]/g, '').replace(/\.\d{3}/, '')\<close>.
\<close>

definition is_digit :: "char \<Rightarrow> bool" where
  "is_digit c = (c \<in> set ''0123456789'')"

fun strip_millis :: "string \<Rightarrow> string" where
  "strip_millis (a # b # c # d # rest) =
     (if a = CHR ''.'' \<and> is_digit b \<and> is_digit c \<and> is_digit d then rest
      else a # strip_millis (b # c # d # rest))"
| "strip_millis s = s"

definition dateStampOf :: "string \<Rightarrow> string" where
  "dateStampOf isoNow = filter (\<lambda>c. c \<noteq> CHR ''-'') (take 10 isoNow)"

definition xDateOf :: "string \<Rightarrow> string" where
  "xDateOf isoNow = strip_millis (filter (\<lambda>c. c \<noteq> CHR ''-'' \<and> c \<noteq> CHR '':'') isoNow)"

text \<open>\<^verbatim>\<open>VolcengineSigner.sign\<close>. The result is the returned object, its keys in order.\<close>

definition sign ::
  "Crypto \<Rightarrow> SignerConfig \<Rightarrow> string \<Rightarrow> RequestOptions \<Rightarrow> (string \<times> string) list" where
  "sign C config isoNow options =
     (let dateStamp = dateStampOf isoNow;
          xDate = xDateOf isoNow;
          bodyHash = sha256 C (case req_body options of None \<Rightarrow> [] | Some b \<Rightarrow> b);
          headersToSign =
            [(''host'', req_host options),
             (''x-date'', xDate),
             (''x-content-sha256'', bodyHash),
             (''content-type'', ''application/json'')];
          sortedKeys = sort (map fst headersToSign);
          canonicalHeaders =
            join newline (map (\<lambda>key. key @ '':'' @ trim (own headersToSign key)) sortedKeys)
              @ newline;
          signedHeaders = join '';'' sortedKeys;
          canonicalQueryString = getCanonicalQueryString (req_query options);
          canonicalRequest =
            join newline
              [req_method options, req_path options, canonicalQueryString, canonicalHeaders,
               signedHeaders, bodyHash];
          algorithm = ''HMAC-SHA256'';
          credentialScope =
            dateStamp @ ''/'' @ region config @ ''/'' @ service config @ ''/request'';
          stringToSign =
            join newline [algorithm, xDate, credentialScope, sha256 C canonicalRequest];
          kDate = hmacSha256 C (secretAccessKey config) dateStamp;
          kRegion = hmacSha256 C kDate (region config);
          kService = hmacSha256 C kRegion (service config);
          kSigning = hmacSha256 C kService ''request'';
          signature = hmacSha256Hex C kSigning stringToSign;
          authorization =
            algorithm @ '' Credential='' @ accessKeyId config @ ''/'' @ credentialScope
              @ '', SignedHeaders='' @ signedHeaders @ '', Signature='' @ signature
      in [(''Host'', req_host options),
          (''X-Date'', xDate),
          (''X-Content-Sha256'', bodyHash),
          (''Content-Type'', ''application/json''),
          (''Authorization'', authorization)])"

section \<open>The control-plane client (lib/faas-client.ts): request\<close>

definition FAAS_HOST :: string where
  "FAAS_HOST = ''open.volcengineapi.com''"

definition FAAS_SERVICE :: string where
  "FAAS_SERVICE = ''vefaas''"

definition FAAS_VERSION :: string where
  "FAAS_VERSION = ''2024-06-06''"

text \<open>
  A parsed JSON value. Numbers are the integers (whether a number is zero is all that
  \<^verbatim>\<open>request\<close> asks of one).
\<close>

datatype json =
  JNull | JBool bool | JNum int | JStr string | JArr "json list" | JObj "(string \<times> json) list"

text \<open>
  \<^verbatim>\<open>data.Result\<close> for a value that is not null: the own property of an object, and
  \<^verbatim>\<open>undefined\<close> (\<open>None\<close>) where there is none or the value is no object.
\<close>

fun property :: "json \<Rightarrow> string \<Rightarrow> json option" where
  "property (JObj kvs) key = map_of kvs key"
| "property other key = None"

text \<open>Truth of a value in a condition: \<^verbatim>\<open>undefined\<close>, null, false, 0 and '' are false.\<close>

fun truthy :: "json option \<Rightarrow> bool" where
  "truthy None = False"
| "truthy (Some JNull) = False"
| "truthy (Some (JBool b)) = b"
| "truthy (Some (JNum n)) = (n \<noteq> 0)"
| "truthy (Some (JStr s)) = (s \<noteq> [])"
| "truthy (Some other) = True"

text \<open>The decimal digits of a number, as a template literal prints the HTTP status.\<close>

fun decimal :: "nat \<Rightarrow> string" where
  "decimal n =
     (if n < 10 then [''0123456789'' ! n]
      else decimal (n div 10) @ [''0123456789'' ! (n mod 10)])"

record HttpRequest =
  http_url :: string
  http_method :: string
  http_headers :: "(string \<times> string) list"
  http_body :: string

text \<open>
  A response: its status, and its body as \<^verbatim>\<open>response.json()\<close> parses it (\<open>None\<close> when the
  body is no JSON text and the parse rejects).
\<close>

record HttpResponse =
  http_status :: nat
  json_body :: "json option"

definition response_ok :: "HttpResponse \<Rightarrow> bool" where
  "response_ok response = (200 \<le> http_status response \<and> http_status response \<le> 299)"

text \<open>What \<^verbatim>\<open>request\<close> can throw.\<close>

datatype Thrown =
  FetchFailed string
| JsonSyntaxError
| NullEnvelope
| FaaSApiError string

record FaaSClient =
  signer :: SignerConfig
  client_region :: string

text \<open>The constructor of \<^verbatim>\<open>FaaSClient\<close>.\<close>

definition newFaaSClient :: "Credentials \<Rightarrow> FaaSClient" where
  "newFaaSClient config =
     \<lparr>signer = \<lparr>accessKeyId = accessKeyId config,
                 secretAccessKey = secretAccessKey config,
                 region = region config,
                 service = FAAS_SERVICE\<rparr>,
      client_region = region config\<rparr>"

text \<open>
  \<^verbatim>\<open>FaaSClient.request\<close>. \<open>stringify\<close> is \<^verbatim>\<open>JSON.stringify\<close>, \<open>isoNow\<close> the clock at the
  signature, \<open>fetch\<close> the network: a rejection with its message, or the response. The
  debug log file is not part of the model.
\<close>

definition request ::
  "Crypto \<Rightarrow> (json \<Rightarrow> string) \<Rightarrow> string \<Rightarrow> (HttpRequest \<Rightarrow> string + HttpResponse) \<Rightarrow>
     FaaSClient \<Rightarrow> string \<Rightarrow> json \<Rightarrow> Thrown + json" where
  "request C stringify isoNow fetch this action params =
     (let query = [(''Action'', action), (''Version'', FAAS_VERSION)];
          body = stringify params;
          path = ''/'';
          headers =
            sign C (signer this) isoNow
              \<lparr>req_method = ''POST'', req_host = FAAS_HOST, req_path = path,
               req_query = Some query, req_headers = None, req_body = Some body\<rparr>;
          queryString =
            join ''&''
              (map (\<lambda>(k, v). encodeURIComponent k @ ''='' @ encodeURIComponent v) query);
          url = ''https://'' @ FAAS_HOST @ path @ ''?'' @ queryString
      in case fetch \<lparr>http_url = url, http_method = ''POST'', http_headers = headers,
                     http_body = body\<rparr> of
           Inl rejected \<Rightarrow> Inl (FetchFailed rejected)
         | Inr response \<Rightarrow>
             (case json_body response of
                None \<Rightarrow> Inl JsonSyntaxError
              | Some data \<Rightarrow>
                  if \<not> response_ok response then
                    Inl (FaaSApiError
                      (''FaaS API Error ['' @ action @ '']: '' @ decimal (http_status response)
                         @ '' - '' @ stringify data))
                  else if data = JNull then Inl NullEnvelope
                  else if \<not> truthy (property data ''Result'') then
                    Inl (FaaSApiError
                      (''FaaS API Error ['' @ action @ '']: '' @ decimal (http_status response)
                         @ '' - '' @ stringify data))
                  else Inr (the (property data ''Result''))))"


section \<open>The control-plane client: waiting for image sync and for the release\<close>

text \<open>
  The status objects, with the fields the two loops read. \<^verbatim>\<open>ReleaseInfo.Status\<close> is
  \<open>releaseStatus\<close> here.
\<close>

record ImageSyncStatus =
  Status :: string
  Description :: "string option"

record ReleaseInfo =
  releaseStatus :: string
  StatusMessage :: "string option"
  ErrorCode :: "string option"

text \<open>How an awaited call ends: it returns, it throws an error with a message, or it never settles.\<close>

datatype Outcome = Returned | Threw string | Hung

text \<open>
  The world of one poll: what the successive calls of the status request do. Each call
  takes some milliseconds and throws (the message of the error) or returns a status; the
  sleep after it (\<^verbatim>\<open>setTimeout(resolve, interval)\<close>) lasts the interval and \<open>overslept\<close> more.
  When the calls of the list are used up, the next one never settles.
\<close>

record 'st FetchCall =
  took :: nat
  reply :: "string + 'st"
  overslept :: nat

record ('st, 'e) WaitOptions =
  timeout :: "nat option"
  interval :: "nat option"
  onProgress :: "('st \<Rightarrow> 'e) option"

text \<open>
  What a wait did: the calls of \<open>onProgress\<close> in order, the number of status requests, the
  milliseconds since \<open>startTime\<close>, and how it ended.
\<close>

record 'e PollRun =
  progress :: "'e list"
  calls :: nat
  finished :: nat
  result :: Outcome

text \<open>\<^verbatim>\<open>onProgress?.(status)\<close>\<close>

definition notify :: "('st \<Rightarrow> 'e) option \<Rightarrow> 'st \<Rightarrow> 'e list" where
  "notify callback st = (case callback of None \<Rightarrow> [] | Some f \<Rightarrow> [f st])"

text \<open>\<^verbatim>\<open>a || b\<close> for an optional string \<open>a\<close>: \<open>b\<close> when \<open>a\<close> is absent or empty.\<close>

definition or_else :: "string option \<Rightarrow> string \<Rightarrow> string" where
  "or_else a b = (case a of None \<Rightarrow> b | Some s \<Rightarrow> if s = [] then b else s)"

text \<open>
  The loop of \<^verbatim>\<open>waitForImageSync\<close>; \<open>now\<close> is \<^verbatim>\<open>Date.now() - startTime\<close> at the loop test,
  \<open>n\<close> the requests made and \<open>seen\<close> the progress calls so far.
\<close>

fun imageSyncLoop ::
  "nat \<Rightarrow> nat \<Rightarrow> (ImageSyncStatus \<Rightarrow> 'e) option \<Rightarrow> ImageSyncStatus FetchCall list \<Rightarrow>
     nat \<Rightarrow> nat \<Rightarrow> 'e list \<Rightarrow> 'e PollRun" where
  "imageSyncLoop tmo ivl callback [] n now seen =
     (if now < tmo then \<lparr>progress = seen, calls = Suc n, finished = now, result = Hung\<rparr>
      else \<lparr>progress = seen, calls = n, finished = now,
             result = Threw ''Image sync timeout''\<rparr>)"
| "imageSyncLoop tmo ivl callback (c # rest) n now seen =
     (if now < tmo then
        (case reply c of
           Inl e \<Rightarrow>
             \<lparr>progress = seen, calls = Suc n, finished = now + took c, result = Threw e\<rparr>
         | Inr st \<Rightarrow>
             if Status st = ''Succeeded'' then
               \<lparr>progress = seen @ notify callback st, calls = Suc n,
                finished = now + took c, result = Returned\<rparr>
             else if Status st = ''Failed'' \<or> Status st = ''Canceled'' then
               \<lparr>progress = seen @ notify callback st, calls = Suc n,
                finished = now + took c,
                result = Threw (''Image sync failed: ''
                                  @ or_else (Description st) (Status st))\<rparr>
             else
               imageSyncLoop tmo ivl callback rest (Suc n)
                 (now + took c + ivl + overslept c) (seen @ notify callback st))
      else \<lparr>progress = seen, calls = n, finished = now,
             result = Threw ''Image sync timeout''\<rparr>)"

text \<open>
  \<^verbatim>\<open>waitForImageSync(functionId, imageUri, options)\<close>; \<open>replies\<close> is what the status requests
  for this function and image do.
\<close>

definition waitForImageSync ::
  "ImageSyncStatus FetchCall list \<Rightarrow> (ImageSyncStatus, 'e) WaitOptions \<Rightarrow> 'e PollRun" where
  "waitForImageSync replies options =
     imageSyncLoop
       (case timeout options of None \<Rightarrow> 300000 | Some t \<Rightarrow> t)
       (case interval options of None \<Rightarrow> 5000 | Some i \<Rightarrow> i)
       (onProgress options) replies 0 0 []"

text \<open>The loop of \<^verbatim>\<open>waitForRelease\<close>.\<close>

fun releaseLoop ::
  "nat \<Rightarrow> nat \<Rightarrow> (ReleaseInfo \<Rightarrow> 'e) option \<Rightarrow> ReleaseInfo FetchCall list \<Rightarrow>
     nat \<Rightarrow> nat \<Rightarrow> 'e list \<Rightarrow> 'e PollRun" where
  "releaseLoop tmo ivl callback [] n now seen =
     (if now < tmo then \<lparr>progress = seen, calls = Suc n, finished = now, result = Hung\<rparr>
      else \<lparr>progress = seen, calls = n, finished = now, result = Threw ''Release timeout''\<rparr>)"
| "releaseLoop tmo ivl callback (c # rest) n now seen =
     (if now < tmo then
        (case reply c of
           Inl e \<Rightarrow>
             \<lparr>progress = seen, calls = Suc n, finished = now + took c, result = Threw e\<rparr>
         | Inr st \<Rightarrow>
             if releaseStatus st = ''done'' then
               \<lparr>progress = seen @ notify callback st, calls = Suc n,
                finished = now + took c, result = Returned\<rparr>
             else if releaseStatus st = ''failed'' then
               \<lparr>progress = seen @ notify callback st, calls = Suc n,
                finished = now + took c,
                result = Threw (''Release failed: ''
                                  @ or_else (StatusMessage st)
                                      (or_else (ErrorCode st) ''Unknown error''))\<rparr>
             else
               releaseLoop tmo ivl callback rest (Suc n)
                 (now + took c + ivl + overslept c) (seen @ notify callback st))
      else \<lparr>progress = seen, calls = n, finished = now, result = Threw ''Release timeout''\<rparr>)"

definition waitForRelease ::
  "ReleaseInfo FetchCall list \<Rightarrow> (ReleaseInfo, 'e) WaitOptions \<Rightarrow> 'e PollRun" where
  "waitForRelease replies options =
     releaseLoop
       (case timeout options of None \<Rightarrow> 300000 | Some t \<Rightarrow> t)
       (case interval options of None \<Rightarrow> 3000 | Some i \<Rightarrow> i)
       (onProgress options) replies 0 0 []"


section \<open>The orchestrator (components/DeployApp.tsx)\<close>

datatype DeployPhase =
  PInit | PBuild | PPush | PSync | PUpdate | PRelease | PDone | PError

text \<open>The lines that the orchestrator logs, by their kind and their variable parts.\<close>

datatype LogLine =
    LogServiceNotFound string
  | LogBuilding string string
  | LogPushing string string
  | LogUpdating string
  | LogImage string
  | LogWaitSync
  | LogReleasing
  | LogWaitRelease
  | LogCompleted
  | LogError string
  | LogOutput string

text \<open>The state of the component (its \<^verbatim>\<open>useState\<close> cells).\<close>

record AppState =
  phase :: DeployPhase
  logs :: "LogLine list"
  error :: "string option"
  steps :: "Step list"
  currentService :: "string option"
  projectConfig :: "ProjectConfig option"

definition initialState :: AppState where
  "initialState =
     \<lparr>phase = PInit, logs = [], error = None, steps = [], currentService = None,
      projectConfig = None\<rparr>"

text \<open>
  The orchestrator acts on the state through its setters only; a run is the sequence of
  the setter calls it makes.
\<close>

datatype Op =
    SetPhase DeployPhase
  | AddLog LogLine
  | SetError string
  | SetCurrentService string
  | UpdateStep string StepPartial

fun apply_op :: "Op \<Rightarrow> AppState \<Rightarrow> AppState" where
  "apply_op (SetPhase p) s = s\<lparr>phase := p\<rparr>"
| "apply_op (AddLog l) s = s\<lparr>logs := logs s @ [l]\<rparr>"
| "apply_op (SetError m) s = s\<lparr>error := Some m\<rparr>"
| "apply_op (SetCurrentService n) s = s\<lparr>currentService := Some n\<rparr>"
| "apply_op (UpdateStep i u) s = s\<lparr>steps := updateStep i u (steps s)\<rparr>"

definition apply_ops :: "Op list \<Rightarrow> AppState \<Rightarrow> AppState" where
  "apply_ops ops s = foldl (\<lambda>s' op. apply_op op s') s ops"

text \<open>
  Sequential composition of awaited parts, each with the setter calls it made and how it
  ended: the first part that does not return ends the sequence (a throw leaves the
  \<^verbatim>\<open>try\<close> block).
\<close>

fun seq :: "(Op list \<times> Outcome) list \<Rightarrow> Op list \<times> Outcome" where
  "seq [] = ([], Returned)"
| "seq ((ops, Returned) # rest) = (ops @ fst (seq rest), snd (seq rest))"
| "seq ((ops, ended) # rest) = (ops, ended)"

text \<open>
  The world of a run. A subprocess gives its output lines, the milliseconds it ran and
  how it ended (a non-zero exit throws; the message is execa's). A call of the client gives
  the milliseconds and the end. \<open>at_service w i\<close> is the world that the \<open>i\<close>-th pass of the
  loop over the services meets.
\<close>

record ProcRun =
  proc_output :: "string list"
  proc_elapsed :: nat
  proc_outcome :: Outcome

record ApiRun =
  api_elapsed :: nat
  api_outcome :: Outcome

record ServiceWorld =
  build_run :: ProcRun
  push_run :: ProcRun
  update_run :: ApiRun
  sync_replies :: "ImageSyncStatus FetchCall list"
  release_run :: ApiRun
  release_replies :: "ReleaseInfo FetchCall list"

record World =
  dockerAvailable :: bool
  credentials :: Credentials
  at_service :: "nat \<Rightarrow> ServiceWorld"

text \<open>\<^verbatim>\<open>getImageTag\<close> (lib/config.ts)\<close>

definition getImageTag :: "Registry \<Rightarrow> string \<Rightarrow> string \<Rightarrow> string" where
  "getImageTag reg imgName version =
     url reg @ ''/'' @ namespace reg @ ''/'' @ imgName @ '':'' @ version"

text \<open>
  \<^verbatim>\<open>buildDockerImage\<close> and \<^verbatim>\<open>pushDockerImage\<close> (lib/docker.ts): the output lines go to
  \<open>onOutput\<close> (here \<open>addLog\<close>), and the awaited subprocess ends the call. The command line
  (paths, platform, image tag) reaches the subprocess only; what the subprocess does is the
  world's \<open>ProcRun\<close>.
\<close>

definition buildDockerImage :: "ProcRun \<Rightarrow> Op list \<times> Outcome" where
  "buildDockerImage run = (map (\<lambda>line. AddLog (LogOutput line)) (proc_output run), proc_outcome run)"

definition pushDockerImage :: "ProcRun \<Rightarrow> Op list \<times> Outcome" where
  "pushDockerImage run = (map (\<lambda>line. AddLog (LogOutput line)) (proc_output run), proc_outcome run)"

text \<open>\<^verbatim>\<open>buildServiceImage\<close> (lib/docker.ts)\<close>

definition buildServiceImage ::
  "ProjectConfig \<Rightarrow> string \<Rightarrow> ProcRun \<Rightarrow> Op list \<times> Outcome" where
  "buildServiceImage config serviceName run =
     (case map_of (services config) serviceName of
        None \<Rightarrow> ([], Threw (''Service \"'' @ serviceName @ ''\" not found in config''))
      | Some svc \<Rightarrow> buildDockerImage run)"

text \<open>
  \<^verbatim>\<open>if (!options.dryRun && credentials.accessKeyId && credentials.secretAccessKey)\<close>
  \<^verbatim>\<open>faasClient = new FaaSClient(credentials)\<close>, else it stays null.
\<close>

definition makeClient :: "DeployOptions \<Rightarrow> Credentials \<Rightarrow> FaaSClient option" where
  "makeClient options creds =
     (if \<not> dryRun options \<and> accessKeyId creds \<noteq> [] \<and> secretAccessKey creds \<noteq> []
      then Some (newFaaSClient creds) else None)"

definition set_status :: "StepStatus \<Rightarrow> StepPartial" where
  "set_status st = \<lparr>p_status = Some st, p_message = None, p_duration = None\<rparr>"

definition set_message :: "string \<Rightarrow> StepPartial" where
  "set_message m = \<lparr>p_status = None, p_message = Some m, p_duration = None\<rparr>"

text \<open>The build part of one pass of the loop.\<close>

definition buildPhase ::
  "ProjectConfig \<Rightarrow> DeployOptions \<Rightarrow> ServiceWorld \<Rightarrow> string \<Rightarrow> string \<Rightarrow> Op list \<times> Outcome" where
  "buildPhase config options w serviceName imageTag =
     (if \<not> skipBuild options then
        seq [([SetPhase PBuild,
               UpdateStep (serviceName @ ''-build'') (set_status Running),
               AddLog (LogBuilding serviceName imageTag)], Returned),
             buildServiceImage config serviceName (build_run w),
             ([UpdateStep (serviceName @ ''-build'')
                 \<lparr>p_status = Some Success, p_message = Some imageTag,
                  p_duration = Some (proc_elapsed (build_run w))\<rparr>], Returned)]
      else ([], Returned))"

text \<open>The push part.\<close>

definition pushPhase ::
  "DeployOptions \<Rightarrow> ServiceWorld \<Rightarrow> string \<Rightarrow> string \<Rightarrow> Op list \<times> Outcome" where
  "pushPhase options w serviceName imageTag =
     (if \<not> skipPush options then
        seq [([SetPhase PPush,
               UpdateStep (serviceName @ ''-push'') (set_status Running),
               AddLog (LogPushing serviceName imageTag)], Returned),
             pushDockerImage (push_run w),
             ([UpdateStep (serviceName @ ''-push'')
                 \<lparr>p_status = Some Success, p_message = None,
                  p_duration = Some (proc_elapsed (push_run w))\<rparr>], Returned)]
      else ([], Returned))"

text \<open>
  The part on the control plane: update, wait for the sync, release, wait for the release,
  or the four steps skipped. Both waits are called with \<open>onProgress\<close> only.
\<close>

definition faasPhase ::
  "FaaSClient option \<Rightarrow> Service \<Rightarrow> ServiceWorld \<Rightarrow> string \<Rightarrow> string \<Rightarrow> Op list \<times> Outcome" where
  "faasPhase faasClient svc w serviceName imageTag =
     (if faasClient \<noteq> None \<and> functionId svc \<noteq> [] then
        (let synced =
               waitForImageSync (sync_replies w)
                 \<lparr>timeout = None, interval = None,
                  onProgress = Some (\<lambda>st. UpdateStep (serviceName @ ''-sync'')
                                             (set_message (Status st)))\<rparr>;
             released =
               waitForRelease (release_replies w)
                 \<lparr>timeout = None, interval = None,
                  onProgress = Some (\<lambda>st. UpdateStep (serviceName @ ''-wait-release'')
                                             (set_message (releaseStatus st)))\<rparr>
         in seq [([SetPhase PUpdate,
                   UpdateStep (serviceName @ ''-update'') (set_status Running),
                   AddLog (LogUpdating (functionId svc)),
                   AddLog (LogImage imageTag)], api_outcome (update_run w)),
                 ([UpdateStep (serviceName @ ''-update'')
                     \<lparr>p_status = Some Success, p_message = None,
                      p_duration = Some (api_elapsed (update_run w))\<rparr>,
                   SetPhase PSync,
                   UpdateStep (serviceName @ ''-sync'') (set_status Running),
                   AddLog LogWaitSync] @ progress synced, result synced),
                 ([UpdateStep (serviceName @ ''-sync'')
                     \<lparr>p_status = Some Success, p_message = None,
                      p_duration = Some (finished synced)\<rparr>,
                   SetPhase PRelease,
                   UpdateStep (serviceName @ ''-release'') (set_status Running),
                   AddLog LogReleasing], api_outcome (release_run w)),
                 ([UpdateStep (serviceName @ ''-release'')
                     \<lparr>p_status = Some Success, p_message = None,
                      p_duration = Some (api_elapsed (release_run w))\<rparr>,
                   UpdateStep (serviceName @ ''-wait-release'') (set_status Running),
                   AddLog LogWaitRelease] @ progress released, result released),
                 ([UpdateStep (serviceName @ ''-wait-release'')
                     \<lparr>p_status = Some Success, p_message = None,
                      p_duration = Some (finished released)\<rparr>], Returned)])
      else
        (let reason = (if faasClient = None then ''No credentials'' else ''No function ID'')
         in ([UpdateStep (serviceName @ ''-update'')
                \<lparr>p_status = Some Skipped, p_message = Some reason, p_duration = None\<rparr>,
              UpdateStep (serviceName @ ''-sync'')
                \<lparr>p_status = Some Skipped, p_message = Some reason, p_duration = None\<rparr>,
              UpdateStep (serviceName @ ''-release'')
                \<lparr>p_status = Some Skipped, p_message = Some reason, p_duration = None\<rparr>,
              UpdateStep (serviceName @ ''-wait-release'')
                \<lparr>p_status = Some Skipped, p_message = Some reason, p_duration = None\<rparr>],
             Returned)))"

text \<open>\<^verbatim>\<open>options.versions[serviceName] || 'latest'\<close>\<close>

definition versionOf :: "DeployOptions \<Rightarrow> string \<Rightarrow> string" where
  "versionOf options serviceName = or_else (versions options serviceName) ''latest''"

text \<open>One pass of \<^verbatim>\<open>for (const serviceName of servicesToDeploy)\<close>.\<close>

definition deployService ::
  "ProjectConfig \<Rightarrow> DeployOptions \<Rightarrow> FaaSClient option \<Rightarrow> ServiceWorld \<Rightarrow> string \<Rightarrow>
     Op list \<times> Outcome" where
  "deployService config options faasClient w serviceName =
     (case map_of (services config) serviceName of
        None \<Rightarrow>
          ([SetCurrentService serviceName, AddLog (LogServiceNotFound serviceName)], Returned)
      | Some svc \<Rightarrow>
          (let imageTag =
                 getImageTag (registry config) (imageName svc) (versionOf options serviceName)
           in seq [([SetCurrentService serviceName], Returned),
                   buildPhase config options w serviceName imageTag,
                   pushPhase options w serviceName imageTag,
                   faasPhase faasClient svc w serviceName imageTag]))"

text \<open>The loop over the services, the \<open>i\<close>-th pass in the world \<open>at_service w i\<close>.\<close>

definition deployLoop ::
  "ProjectConfig \<Rightarrow> DeployOptions \<Rightarrow> FaaSClient option \<Rightarrow> (nat \<Rightarrow> ServiceWorld) \<Rightarrow>
     nat \<Rightarrow> string list \<Rightarrow> Op list \<times> Outcome" where
  "deployLoop config options faasClient ws start svcs =
     seq (map (\<lambda>(i, serviceName). deployService config options faasClient (ws i) serviceName)
            (enumerate start svcs))"

text \<open>The body of the \<^verbatim>\<open>try\<close> block of \<^verbatim>\<open>deploy\<close>, up to the loop's end.\<close>

definition deployBody :: "ProjectConfig \<Rightarrow> DeployOptions \<Rightarrow> World \<Rightarrow> Op list \<times> Outcome" where
  "deployBody config options w =
     (if \<not> dockerAvailable w then
        ([], Threw ''Docker is not available. Please install and start Docker.'')
      else
        deployLoop config options (makeClient options (credentials w)) (at_service w) 0
          (servicesToDeploy options config))"

text \<open>
  \<^verbatim>\<open>deploy\<close>: the body, then the end of the \<^verbatim>\<open>try\<close> block or the \<^verbatim>\<open>catch\<close> handler. A run
  that hangs makes neither.
\<close>

definition deploy :: "ProjectConfig \<Rightarrow> DeployOptions \<Rightarrow> World \<Rightarrow> Op list" where
  "deploy config options w =
     (case deployBody config options w of
        (ops, Returned) \<Rightarrow> ops @ [SetPhase PDone, AddLog LogCompleted]
      | (ops, Threw m) \<Rightarrow> ops @ [SetPhase PError, SetError m, AddLog (LogError m)]
      | (ops, Hung) \<Rightarrow> ops)"

text \<open>
  The first effect: load the configuration and plan the steps. \<open>loaded\<close> is what
  \<^verbatim>\<open>loadProjectConfig\<close> returned.
\<close>

definition planEffect :: "ProjectConfig option \<Rightarrow> DeployOptions \<Rightarrow> AppState \<Rightarrow> AppState" where
  "planEffect loaded options s =
     (case loaded of
        None \<Rightarrow>
          s\<lparr>error := Some
               ''No deploy.config.json found. Run `liminian-deploy init` to create one.'',
            phase := PError\<rparr>
      | Some config \<Rightarrow>
          s\<lparr>projectConfig := Some config,
            steps := initialSteps options (servicesToDeploy options config)\<rparr>)"

text \<open>
  The second effect: \<^verbatim>\<open>if (!projectConfig || steps.length === 0) return\<close>, else \<^verbatim>\<open>deploy()\<close>.
\<close>

definition deployEffect :: "DeployOptions \<Rightarrow> World \<Rightarrow> AppState \<Rightarrow> AppState" where
  "deployEffect options w s =
     (case projectConfig s of
        None \<Rightarrow> s
      | Some config \<Rightarrow>
          if length (steps s) = 0 then s else apply_ops (deploy config options w) s)"

definition runApp :: "ProjectConfig option \<Rightarrow> DeployOptions \<Rightarrow> World \<Rightarrow> AppState" where
  "runApp loaded options w = deployEffect options w (planEffect loaded options initialState)"

section \<open>Forward movement of the step statuses\<close>

text \<open>
  A status may stay, leave pending for any status, and leave running for a final one;
  success, error and skipped are final.
\<close>

fun forward :: "StepStatus \<Rightarrow> StepStatus \<Rightarrow> bool" where
  "forward Pending b = True"
| "forward Running b = (b = Running \<or> b = Success \<or> b = Error \<or> b = Skipped)"
| "forward a b = (a = b)"

text \<open>Every setter call of the sequence, made in turn from state \<open>s\<close>, moves every step forward.\<close>

fun forward_run :: "Op list \<Rightarrow> AppState \<Rightarrow> bool" where
  "forward_run [] s = True"
| "forward_run (op # ops) s =
     (list_all2 (\<lambda>a b. forward (status a) (status b)) (steps s) (steps (apply_op op s))
      \<and> forward_run ops (apply_op op s))"


section \<open>The setter calls that reach one step\<close>

text \<open>The updates that a sequence of setter calls addresses to the step identifier \<open>x\<close>.\<close>

fun updates_for :: "string \<Rightarrow> Op list \<Rightarrow> StepPartial list" where
  "updates_for x [] = []"
| "updates_for x (UpdateStep i u # ops) =
     (if i = x then u # updates_for x ops else updates_for x ops)"
| "updates_for x (other # ops) = updates_for x ops"

text \<open>The statuses that a list of updates assigns, in order.\<close>

definition statuses :: "StepPartial list \<Rightarrow> StepStatus list" where
  "statuses us = concat (map (\<lambda>u. case p_status u of None \<Rightarrow> [] | Some b \<Rightarrow> [b]) us)"

text \<open>A status followed by the statuses assigned after it, each move forward.\<close>

fun chain :: "StepStatus \<Rightarrow> StepStatus list \<Rightarrow> bool" where
  "chain a [] = True"
| "chain a (b # bs) = (forward a b \<and> chain b bs)"

text \<open>The identifiers of the six steps of a service.\<close>

definition stepIds :: "string \<Rightarrow> string list" where
  "stepIds serviceName =
     map (\<lambda>suffix. serviceName @ suffix)
       [''-build'', ''-push'', ''-update'', ''-sync'', ''-release'', ''-wait-release'']"

text \<open>The statuses at which a wait goes on: neither its success nor its failure.\<close>

definition sync_goes_on :: "ImageSyncStatus \<Rightarrow> bool" where
  "sync_goes_on st =
     (Status st \<noteq> ''Succeeded'' \<and> Status st \<noteq> ''Failed'' \<and> Status st \<noteq> ''Canceled'')"

definition release_goes_on :: "ReleaseInfo \<Rightarrow> bool" where
  "release_goes_on st = (releaseStatus st \<noteq> ''done'' \<and> releaseStatus st \<noteq> ''failed'')"

text \<open>The HTTP request that \<^verbatim>\<open>request\<close> hands to \<^verbatim>\<open>fetch\<close>.\<close>

definition sentRequest ::
  "Crypto \<Rightarrow> (json \<Rightarrow> string) \<Rightarrow> string \<Rightarrow> FaaSClient \<Rightarrow> string \<Rightarrow> json \<Rightarrow> HttpRequest" where
  "sentRequest C stringify isoNow this action params =
     \<lparr>http_url =
        ''https://'' @ FAAS_HOST @ ''/'' @ ''?''
          @ join ''&''
              (map (\<lambda>(k, v). encodeURIComponent k @ ''='' @ encodeURIComponent v)
                 [(''Action'', action), (''Version'', FAAS_VERSION)]),
      http_method = ''POST'',
      http_headers =
        sign C (signer this) isoNow
          \<lparr>req_method = ''POST'', req_host = FAAS_HOST, req_path = ''/'',
           req_query = Some [(''Action'', action), (''Version'', FAAS_VERSION)],
           req_headers = None, req_body = Some (stringify params)\<rparr>,
      http_body = stringify params\<rparr>"


section \<open>Example inputs\<close>

definition demo_service :: "string \<Rightarrow> string \<Rightarrow> Service" where
  "demo_service img fid =
     \<lparr>functionId = fid, dockerfile = ''Dockerfile'', build_context = ''.'',
      imageName = img, platform = None\<rparr>"

definition demo_config :: ProjectConfig where
  "demo_config =
     \<lparr>project_name = ''demo'',
      registry = \<lparr>url = ''r.example.com'', namespace = ''ns''\<rparr>,
      services = [(''api'', demo_service ''demo-api'' ''fn-api''),
                  (''worker'', demo_service ''demo-worker'' ''fn-worker'')]\<rparr>"

definition demo_options :: DeployOptions where
  "demo_options =
     \<lparr>opt_services = None,
      versions = [''api'' \<mapsto> ''v1.0.1'', ''worker'' \<mapsto> ''v0.3.0''],
      skipBuild = False, skipPush = False, dryRun = False\<rparr>"


definition sync_reply :: "string \<Rightarrow> ImageSyncStatus FetchCall" where
  "sync_reply s = \<lparr>took = 40, reply = Inr \<lparr>Status = s, Description = None\<rparr>, overslept = 1\<rparr>"

definition release_reply :: "string \<Rightarrow> ReleaseInfo FetchCall" where
  "release_reply s =
     \<lparr>took = 40,
      reply = Inr \<lparr>releaseStatus = s, StatusMessage = None, ErrorCode = None\<rparr>,
      overslept = 1\<rparr>"

definition report_all :: "nat option \<Rightarrow> nat option \<Rightarrow> ('st, 'st) WaitOptions" where
  "report_all t i = \<lparr>timeout = t, interval = i, onProgress = Some (\<lambda>st. st)\<rparr>"


definition demo_crypto :: Crypto where
  "demo_crypto = \<lparr>sha256_digest = (\<lambda>data. data), hmac_digest = (\<lambda>key data. key @ data)\<rparr>"

definition demo_client :: FaaSClient where
  "demo_client =
     newFaaSClient \<lparr>accessKeyId = ''AK'', secretAccessKey = ''SK'', region = ''cn-beijing''\<rparr>"

definition demo_metadata :: json where
  "demo_metadata =
     JObj [(''RequestId'', JStr ''r-1''), (''Action'', JStr ''GetFunction''),
           (''Version'', JStr ''2024-06-06''), (''Service'', JStr ''vefaas''),
           (''Region'', JStr ''cn-beijing'')]"

definition answer :: "nat \<Rightarrow> (string \<times> json) list \<Rightarrow> HttpRequest \<Rightarrow> string + HttpResponse" where
  "answer code envelope sent = Inr \<lparr>http_status = code, json_body = Some (JObj envelope)\<rparr>"


definition ok_proc :: ProcRun where
  "ok_proc = \<lparr>proc_output = [''done''], proc_elapsed = 1200, proc_outcome = Returned\<rparr>"

definition ok_api :: ApiRun where
  "ok_api = \<lparr>api_elapsed = 80, api_outcome = Returned\<rparr>"

definition ok_service_world :: ServiceWorld where
  "ok_service_world =
     \<lparr>build_run = ok_proc, push_run = ok_proc, update_run = ok_api,
      sync_replies = [sync_reply ''Running'', sync_reply ''Succeeded''],
      release_run = ok_api,
      release_replies = [release_reply ''inprogress'', release_reply ''done'']\<rparr>"

definition demo_world :: World where
  "demo_world =
     \<lparr>dockerAvailable = True,
      credentials = \<lparr>accessKeyId = ''AK'', secretAccessKey = ''SK'', region = ''cn-beijing''\<rparr>,
      at_service = (\<lambda>i. ok_service_world)\<rparr>"

definition push_fails_world :: World where
  "push_fails_world =
     demo_world\<lparr>at_service := (\<lambda>i. ok_service_world
        \<lparr>push_run := \<lparr>proc_output = [''denied''], proc_elapsed = 300,
                       proc_outcome = Threw ''Command failed with exit code 1: docker push''\<rparr>\<rparr>)\<rparr>"

text \<open>The options of \<^verbatim>\<open>build -s api,api\<close>: the same service selected twice.\<close>

definition twice_options :: DeployOptions where
  "twice_options =
     demo_options\<lparr>opt_services := Some [''api'', ''api''], skipPush := True, dryRun := True\<rparr>"


text \<open>The configuration with no function identifier for the service \<open>api\<close>.\<close>

definition unbound_config :: ProjectConfig where
  "unbound_config =
     demo_config\<lparr>services := [(''api'', demo_service ''demo-api'' [])]\<rparr>"


section \<open>Setter calls and the step registry\<close>

lemma updates_for_append: "updates_for x (a @ b) = updates_for x a @ updates_for x b"
  by (induction x a rule: updates_for.induct) simp_all

lemma updates_for_logs: "updates_for x (map (\<lambda>line. AddLog (f line)) ls) = []"
  by (induction ls) simp_all

lemma statuses_append: "statuses (a @ b) = statuses a @ statuses b"
  by (simp add: statuses_def)

lemma statuses_Nil: "statuses [] = []"
  by (simp add: statuses_def)

lemma statuses_Cons:
  "statuses (u # us) = (case p_status u of None \<Rightarrow> statuses us | Some b \<Rightarrow> b # statuses us)"
  by (simp add: statuses_def split: option.splits)

lemma step_id_spread: "step_id (spread st u) = step_id st"
  by (simp add: spread_def)

lemma status_spread:
  "status (spread st u) = (case p_status u of None \<Rightarrow> status st | Some b \<Rightarrow> b)"
  by (simp add: spread_def)

lemma apply_ops_Nil: "apply_ops [] s = s"
  by (simp add: apply_ops_def)

lemma apply_ops_Cons: "apply_ops (op # ops) s = apply_ops ops (apply_op op s)"
  by (simp add: apply_ops_def)

lemma apply_ops_append: "apply_ops (a @ b) s = apply_ops b (apply_ops a s)"
  by (simp add: apply_ops_def)

lemma steps_apply_op:
  "steps (apply_op op s) =
     map (\<lambda>st. foldl spread st (updates_for (step_id st) [op])) (steps s)"
  by (cases op) (simp_all add: updateStep_def)

lemma steps_apply_ops:
  "steps (apply_ops ops s) =
     map (\<lambda>st. foldl spread st (updates_for (step_id st) ops)) (steps s)"
proof (induction ops arbitrary: s)
  case Nil
  then show ?case by (simp add: apply_ops_Nil)
next
  case (Cons op ops)
  have "steps (apply_ops (op # ops) s) =
          map (\<lambda>st. foldl spread st (updates_for (step_id st) ops)) (steps (apply_op op s))"
    by (simp add: apply_ops_Cons Cons.IH)
  also have "\<dots> = map (\<lambda>st. foldl spread st (updates_for (step_id st) (op # ops))) (steps s)"
    by (cases op) (simp_all add: updateStep_def step_id_spread)
  finally show ?case .
qed

lemma ball_set_map: "(\<forall>y\<in>set (map g xs). P y) = (\<forall>x\<in>set xs. P (g x))"
  by (induction xs) simp_all

lemma forward_refl: "forward a a"
  by (cases a) simp_all

lemma forward_run_iff:
  "forward_run ops s =
     (\<forall>st\<in>set (steps s). chain (status st) (statuses (updates_for (step_id st) ops)))"
proof (induction ops arbitrary: s)
  case Nil
  then show ?case by (simp add: statuses_Nil)
next
  case (Cons op ops)
  show ?case
  proof (cases op)
    case (UpdateStep i u)
    have now: "list_all2 (\<lambda>a b. forward (status a) (status b)) (steps s)
                 (steps (apply_op op s)) =
               (\<forall>st\<in>set (steps s). step_id st = i \<longrightarrow>
                  forward (status st) (status (spread st u)))"
      unfolding UpdateStep
      by (auto simp: updateStep_def list_all2_map2 list_all2_same forward_refl)
    have later: "forward_run ops (apply_op op s) =
               (\<forall>st\<in>set (steps s).
                  chain (status (if step_id st = i then spread st u else st))
                    (statuses (updates_for (step_id st) ops)))"
    proof -
      have moved: "steps (apply_op op s) =
              map (\<lambda>st. if step_id st = i then spread st u else st) (steps s)"
        by (simp add: UpdateStep updateStep_def)
      show ?thesis
        unfolding Cons.IH moved ball_set_map
        by (rule ball_cong) (simp_all add: step_id_spread)
    qed
    show ?thesis
      unfolding forward_run.simps now later
      unfolding UpdateStep
      by (auto simp: statuses_Cons status_spread forward_refl split: option.splits)
  next
    case (SetPhase p)
    then show ?thesis
      by (simp add: Cons.IH list_all2_same forward_refl)
  next
    case (AddLog l)
    then show ?thesis
      by (simp add: Cons.IH list_all2_same forward_refl)
  next
    case (SetError m)
    then show ?thesis
      by (simp add: Cons.IH list_all2_same forward_refl)
  next
    case (SetCurrentService n)
    then show ?thesis
      by (simp add: Cons.IH list_all2_same forward_refl)
  qed
qed

section \<open>Sequences of awaited parts\<close>

lemma seq_Cons:
  "seq (p # rest) =
     (if snd p = Returned then (fst p @ fst (seq rest), snd (seq rest)) else p)"
  by (cases p; cases "snd p") auto

lemma seq_append:
  "seq (xs @ ys) =
     (if snd (seq xs) = Returned then (fst (seq xs) @ fst (seq ys), snd (seq ys)) else seq xs)"
  by (induction xs) (auto simp: seq_Cons)

lemma seq_all_Returned: "\<forall>p\<in>set xs. snd p = Returned \<Longrightarrow> snd (seq xs) = Returned"
  by (induction xs) (auto simp: seq_Cons)

lemma updates_for_seq_Cons:
  "updates_for x (fst (seq (p # rest))) =
     updates_for x (fst p) @ (if snd p = Returned then updates_for x (fst (seq rest)) else [])"
  by (simp add: seq_Cons updates_for_append)

lemma updates_for_seq_untouched:
  "\<forall>p\<in>set xs. updates_for x (fst p) = [] \<Longrightarrow> updates_for x (fst (seq xs)) = []"
  by (induction xs) (auto simp: seq_Cons updates_for_append)


section \<open>Planning: six steps per service\<close>

lemma length_serviceSteps: "length (serviceSteps options s) = 6"
  by (simp add: serviceSteps_def)

lemma length_initialSteps: "length (initialSteps options svcs) = 6 * length svcs"
  by (induction svcs) (simp_all add: length_serviceSteps)

lemma initialSteps_block:
  "i < length svcs \<Longrightarrow>
     take 6 (drop (6 * i) (initialSteps options svcs)) = serviceSteps options (svcs ! i)"
proof (induction svcs arbitrary: i)
  case Nil
  then show ?case by simp
next
  case (Cons s rest)
  show ?case
  proof (cases i)
    case 0
    then show ?thesis by (simp add: length_serviceSteps)
  next
    case (Suc j)
    with Cons.prems have j: "j < length rest" by simp
    have "drop (6 * i) (serviceSteps options s @ initialSteps options rest)
            = drop (6 * j) (initialSteps options rest)"
      using Suc by (simp add: length_serviceSteps)
    with Cons.IH [OF j] Suc show ?thesis by simp
  qed
qed

lemma initialSteps_nth:
  assumes "i < length svcs" and "j < 6"
  shows "initialSteps options svcs ! (6 * i + j) = serviceSteps options (svcs ! i) ! j"
proof -
  have len: "6 * i + j < length (initialSteps options svcs)"
    using assms by (simp add: length_initialSteps)
  have "serviceSteps options (svcs ! i) ! j
          = take 6 (drop (6 * i) (initialSteps options svcs)) ! j"
    using assms by (simp add: initialSteps_block)
  also have "\<dots> = initialSteps options svcs ! (6 * i + j)"
    using assms len by simp
  finally show ?thesis by simp
qed


text \<open>
  Claim C4. Planning creates exactly six steps per selected service, in the order build,
  push, update, sync, release, wait-release, the blocks of the services in the order of the
  selection. The build step starts as skipped if skip-build is set and as pending
  otherwise, the push step likewise with skip-push, and the four others start as pending.
  An absent or empty selection selects every configured service; a non-empty selection is
  taken as it is.
\<close>

theorem plan_six_steps_per_service:
  "(let svcs = servicesToDeploy options config; plan = initialSteps options svcs in
      length plan = 6 * length svcs \<and>
      (\<forall>i<length svcs.
         map step_id (take 6 (drop (6 * i) plan)) =
           map (\<lambda>suffix. svcs ! i @ suffix)
             [''-build'', ''-push'', ''-update'', ''-sync'', ''-release'', ''-wait-release''] \<and>
         map status (take 6 (drop (6 * i) plan)) =
           [if skipBuild options then Skipped else Pending,
            if skipPush options then Skipped else Pending,
            Pending, Pending, Pending, Pending] \<and>
         (status (plan ! (6 * i)) = Skipped) = skipBuild options \<and>
         (status (plan ! (6 * i + 1)) = Skipped) = skipPush options) \<and>
      (svcs = map fst (services config)) =
         (opt_services options = None \<or> opt_services options = Some [] \<or>
          opt_services options = Some (map fst (services config))) \<and>
      (\<forall>sel. opt_services options = Some sel \<and> sel \<noteq> [] \<longrightarrow> svcs = sel))"
proof -
  define svcs where "svcs = servicesToDeploy options config"
  define plan where "plan = initialSteps options svcs"
  have len: "length plan = 6 * length svcs"
    by (simp add: plan_def length_initialSteps)
  have blocks: "\<forall>i<length svcs.
         map step_id (take 6 (drop (6 * i) plan)) =
           map (\<lambda>suffix. svcs ! i @ suffix)
             [''-build'', ''-push'', ''-update'', ''-sync'', ''-release'', ''-wait-release''] \<and>
         map status (take 6 (drop (6 * i) plan)) =
           [if skipBuild options then Skipped else Pending,
            if skipPush options then Skipped else Pending,
            Pending, Pending, Pending, Pending] \<and>
         (status (plan ! (6 * i)) = Skipped) = skipBuild options \<and>
         (status (plan ! (6 * i + 1)) = Skipped) = skipPush options"
  proof (intro allI impI)
    fix i assume i: "i < length svcs"
    have blk: "take 6 (drop (6 * i) plan) = serviceSteps options (svcs ! i)"
      using i by (simp add: plan_def initialSteps_block)
    have n0: "plan ! (6 * i) = serviceSteps options (svcs ! i) ! 0"
      using initialSteps_nth [OF i, of 0 options] by (simp add: plan_def)
    have n1: "plan ! (6 * i + 1) = serviceSteps options (svcs ! i) ! 1"
      using initialSteps_nth [OF i, of 1 options] by (simp add: plan_def)
    show "map step_id (take 6 (drop (6 * i) plan)) =
           map (\<lambda>suffix. svcs ! i @ suffix)
             [''-build'', ''-push'', ''-update'', ''-sync'', ''-release'', ''-wait-release''] \<and>
         map status (take 6 (drop (6 * i) plan)) =
           [if skipBuild options then Skipped else Pending,
            if skipPush options then Skipped else Pending,
            Pending, Pending, Pending, Pending] \<and>
         (status (plan ! (6 * i)) = Skipped) = skipBuild options \<and>
         (status (plan ! (6 * i + 1)) = Skipped) = skipPush options"
      unfolding blk n0 n1 by (simp add: serviceSteps_def mkStep_def)
  qed
  have sel_all: "(svcs = map fst (services config)) =
         (opt_services options = None \<or> opt_services options = Some [] \<or>
          opt_services options = Some (map fst (services config)))"
    by (auto simp: svcs_def servicesToDeploy_def split: option.splits list.splits)
  have sel_given: "\<forall>sel. opt_services options = Some sel \<and> sel \<noteq> [] \<longrightarrow> svcs = sel"
    by (auto simp: svcs_def servicesToDeploy_def split: option.splits list.splits)
  from len blocks sel_all sel_given show ?thesis
    unfolding Let_def svcs_def [symmetric] plan_def [symmetric] by blast
qed

theorem plan_six_steps_per_service_witness:
  "length (initialSteps (demo_options\<lparr>skipBuild := True\<rparr>)
      (servicesToDeploy (demo_options\<lparr>skipBuild := True\<rparr>) demo_config)) = 12 \<and>
   map step_id (take 6 (drop 6 (initialSteps (demo_options\<lparr>skipBuild := True\<rparr>)
      (servicesToDeploy (demo_options\<lparr>skipBuild := True\<rparr>) demo_config)))) =
     [''worker-build'', ''worker-push'', ''worker-update'', ''worker-sync'',
      ''worker-release'', ''worker-wait-release''] \<and>
   map status (take 6 (drop 6 (initialSteps (demo_options\<lparr>skipBuild := True\<rparr>)
      (servicesToDeploy (demo_options\<lparr>skipBuild := True\<rparr>) demo_config)))) =
     [Skipped, Pending, Pending, Pending, Pending, Pending] \<and>
   servicesToDeploy (demo_options\<lparr>skipBuild := True\<rparr>) demo_config = [''api'', ''worker'']"
proof -
  have svcs: "servicesToDeploy (demo_options\<lparr>skipBuild := True\<rparr>) demo_config
                = [''api'', ''worker'']"
    by (simp add: servicesToDeploy_def demo_options_def demo_config_def)
  have skip: "skipBuild (demo_options\<lparr>skipBuild := True\<rparr>)"
    "\<not> skipPush (demo_options\<lparr>skipBuild := True\<rparr>)"
    by (simp_all add: demo_options_def)
  show ?thesis
    using plan_six_steps_per_service [of "demo_options\<lparr>skipBuild := True\<rparr>" demo_config]
    unfolding Let_def svcs using skip
    by (auto dest!: spec [where x = 1])
qed

section \<open>The two waits\<close>

lemma calls_imageSyncLoop: "n \<le> calls (imageSyncLoop tmo ivl cb script n now seen)"
proof (induction script arbitrary: n now seen)
  case Nil
  then show ?case by simp
next
  case (Cons c rest)
  have "Suc n \<le> calls (imageSyncLoop tmo ivl cb rest (Suc n)
          (now + took c + ivl + overslept c) (seen @ notify cb st))" for st
    by (rule Cons.IH)
  then have "n \<le> calls (imageSyncLoop tmo ivl cb rest (Suc n)
          (now + took c + ivl + overslept c) (seen @ notify cb st))" for st
    using Suc_leD by blast
  then show ?case by (simp split: sum.splits)
qed

lemma calls_imageSyncLoop_in_time:
  "now < tmo \<Longrightarrow> Suc n \<le> calls (imageSyncLoop tmo ivl cb script n now seen)"
  by (cases script) (simp_all add: calls_imageSyncLoop split: sum.splits)

lemma calls_releaseLoop: "n \<le> calls (releaseLoop tmo ivl cb script n now seen)"
proof (induction script arbitrary: n now seen)
  case Nil
  then show ?case by simp
next
  case (Cons c rest)
  have "Suc n \<le> calls (releaseLoop tmo ivl cb rest (Suc n)
          (now + took c + ivl + overslept c) (seen @ notify cb st))" for st
    by (rule Cons.IH)
  then have "n \<le> calls (releaseLoop tmo ivl cb rest (Suc n)
          (now + took c + ivl + overslept c) (seen @ notify cb st))" for st
    using Suc_leD by blast
  then show ?case by (simp split: sum.splits)
qed

lemma calls_releaseLoop_in_time:
  "now < tmo \<Longrightarrow> Suc n \<le> calls (releaseLoop tmo ivl cb script n now seen)"
  by (cases script) (simp_all add: calls_releaseLoop split: sum.splits)

lemma imageSyncLoop_returns_at_success:
  "result (imageSyncLoop tmo ivl cb script n now seen) = Returned \<Longrightarrow>
     \<exists>k<length script.
        (\<exists>st. reply (script ! k) = Inr st \<and> Status st = ''Succeeded'') \<and>
        calls (imageSyncLoop tmo ivl cb script n now seen) = n + Suc k \<and>
        (\<forall>j<k. \<exists>st. reply (script ! j) = Inr st \<and> sync_goes_on st)"
proof (induction script arbitrary: n now seen)
  case Nil
  then show ?case by (simp split: if_splits)
next
  case (Cons c rest)
  from Cons.prems have in_time: "now < tmo"
    by (simp split: if_splits)
  from Cons.prems in_time obtain st where st: "reply c = Inr st"
    by (cases "reply c") simp_all
  show ?case
  proof (cases "Status st = ''Succeeded''")
    case True
    with in_time st show ?thesis
      by (intro exI [where x = 0]) simp
  next
    case False
    with Cons.prems in_time st have on: "sync_goes_on st"
      by (auto simp: sync_goes_on_def split: if_splits)
    let ?next = "imageSyncLoop tmo ivl cb rest (Suc n) (now + took c + ivl + overslept c)
                   (seen @ notify cb st)"
    have step: "imageSyncLoop tmo ivl cb (c # rest) n now seen = ?next"
      using in_time st on by (simp add: sync_goes_on_def)
    with Cons.prems have "result ?next = Returned"
      by simp
    from Cons.IH [OF this] obtain k where k: "k < length rest"
      "\<exists>st. reply (rest ! k) = Inr st \<and> Status st = ''Succeeded''"
      "calls ?next = Suc n + Suc k"
      "\<forall>j<k. \<exists>st. reply (rest ! j) = Inr st \<and> sync_goes_on st"
      by blast
    have earlier: "\<exists>st'. reply ((c # rest) ! j) = Inr st' \<and> sync_goes_on st'"
      if "j < Suc k" for j
      using that st on k(4) by (cases j) auto
    from k earlier show ?thesis
      unfolding step by (intro exI [where x = "Suc k"]) auto
  qed
qed

lemma releaseLoop_returns_at_done:
  "result (releaseLoop tmo ivl cb script n now seen) = Returned \<Longrightarrow>
     \<exists>k<length script.
        (\<exists>st. reply (script ! k) = Inr st \<and> releaseStatus st = ''done'') \<and>
        calls (releaseLoop tmo ivl cb script n now seen) = n + Suc k \<and>
        (\<forall>j<k. \<exists>st. reply (script ! j) = Inr st \<and> release_goes_on st)"
proof (induction script arbitrary: n now seen)
  case Nil
  then show ?case by (simp split: if_splits)
next
  case (Cons c rest)
  from Cons.prems have in_time: "now < tmo"
    by (simp split: if_splits)
  from Cons.prems in_time obtain st where st: "reply c = Inr st"
    by (cases "reply c") simp_all
  show ?case
  proof (cases "releaseStatus st = ''done''")
    case True
    with in_time st show ?thesis
      by (intro exI [where x = 0]) simp
  next
    case False
    with Cons.prems in_time st have on: "release_goes_on st"
      by (auto simp: release_goes_on_def split: if_splits)
    let ?next = "releaseLoop tmo ivl cb rest (Suc n) (now + took c + ivl + overslept c)
                   (seen @ notify cb st)"
    have step: "releaseLoop tmo ivl cb (c # rest) n now seen = ?next"
      using in_time st on by (simp add: release_goes_on_def)
    with Cons.prems have "result ?next = Returned"
      by simp
    from Cons.IH [OF this] obtain k where k: "k < length rest"
      "\<exists>st. reply (rest ! k) = Inr st \<and> releaseStatus st = ''done''"
      "calls ?next = Suc n + Suc k"
      "\<forall>j<k. \<exists>st. reply (rest ! j) = Inr st \<and> release_goes_on st"
      by blast
    have earlier: "\<exists>st'. reply ((c # rest) ! j) = Inr st' \<and> release_goes_on st'"
      if "j < Suc k" for j
      using that st on k(4) by (cases j) auto
    from k earlier show ?thesis
      unfolding step by (intro exI [where x = "Suc k"]) auto
  qed
qed

text \<open>
  Claim C3. The image-sync wait has the default timeout 300000 ms and the default interval
  5000 ms, returns at the status Succeeded and fails at Failed or Canceled; the release
  wait has the defaults 300000 ms and 3000 ms, returns at done and fails at failed. At any
  other status either loop sleeps and goes round again: it behaves as the loop entered
  anew after the sleep, and makes one more status request if the timeout has not passed
  by then. A wait that returns has seen its success status at its last request, and only
  statuses at which it goes on before.
\<close>

theorem poll_terminal_statuses:
  "waitForImageSync replies \<lparr>timeout = None, interval = None, onProgress = cb\<rparr> =
     imageSyncLoop 300000 5000 cb replies 0 0 [] \<and>
   waitForRelease replies' \<lparr>timeout = None, interval = None, onProgress = cb'\<rparr> =
     releaseLoop 300000 3000 cb' replies' 0 0 [] \<and>
   (now < tmo \<and> reply c = Inr st \<longrightarrow>
      (Status st = ''Succeeded'' \<longrightarrow>
         imageSyncLoop tmo ivl cb (c # rest) n now seen =
           \<lparr>progress = seen @ notify cb st, calls = Suc n, finished = now + took c,
            result = Returned\<rparr>) \<and>
      (Status st = ''Failed'' \<or> Status st = ''Canceled'' \<longrightarrow>
         imageSyncLoop tmo ivl cb (c # rest) n now seen =
           \<lparr>progress = seen @ notify cb st, calls = Suc n, finished = now + took c,
            result = Threw (''Image sync failed: ''
                              @ or_else (Description st) (Status st))\<rparr>) \<and>
      (sync_goes_on st \<longrightarrow>
         imageSyncLoop tmo ivl cb (c # rest) n now seen =
           imageSyncLoop tmo ivl cb rest (Suc n) (now + took c + ivl + overslept c)
             (seen @ notify cb st) \<and>
         (now + took c + ivl + overslept c < tmo \<longrightarrow>
            Suc (Suc n) \<le> calls (imageSyncLoop tmo ivl cb (c # rest) n now seen)))) \<and>
   (now < tmo \<and> reply c' = Inr st' \<longrightarrow>
      (releaseStatus st' = ''done'' \<longrightarrow>
         releaseLoop tmo ivl cb' (c' # rest') n now seen' =
           \<lparr>progress = seen' @ notify cb' st', calls = Suc n, finished = now + took c',
            result = Returned\<rparr>) \<and>
      (releaseStatus st' = ''failed'' \<longrightarrow>
         releaseLoop tmo ivl cb' (c' # rest') n now seen' =
           \<lparr>progress = seen' @ notify cb' st', calls = Suc n, finished = now + took c',
            result = Threw (''Release failed: ''
                              @ or_else (StatusMessage st')
                                  (or_else (ErrorCode st') ''Unknown error''))\<rparr>) \<and>
      (release_goes_on st' \<longrightarrow>
         releaseLoop tmo ivl cb' (c' # rest') n now seen' =
           releaseLoop tmo ivl cb' rest' (Suc n) (now + took c' + ivl + overslept c')
             (seen' @ notify cb' st') \<and>
         (now + took c' + ivl + overslept c' < tmo \<longrightarrow>
            Suc (Suc n) \<le> calls (releaseLoop tmo ivl cb' (c' # rest') n now seen')))) \<and>
   (result (waitForImageSync script options) = Returned \<longrightarrow>
      (\<exists>k<length script.
          (\<exists>st. reply (script ! k) = Inr st \<and> Status st = ''Succeeded'') \<and>
          calls (waitForImageSync script options) = Suc k \<and>
          (\<forall>j<k. \<exists>st. reply (script ! j) = Inr st \<and> sync_goes_on st))) \<and>
   (result (waitForRelease script' options') = Returned \<longrightarrow>
      (\<exists>k<length script'.
          (\<exists>st. reply (script' ! k) = Inr st \<and> releaseStatus st = ''done'') \<and>
          calls (waitForRelease script' options') = Suc k \<and>
          (\<forall>j<k. \<exists>st. reply (script' ! j) = Inr st \<and> release_goes_on st)))"
proof -
  have default_sync:
    "waitForImageSync replies \<lparr>timeout = None, interval = None, onProgress = cb\<rparr> =
       imageSyncLoop 300000 5000 cb replies 0 0 []"
    by (simp add: waitForImageSync_def)
  have default_release:
    "waitForRelease replies' \<lparr>timeout = None, interval = None, onProgress = cb'\<rparr> =
       releaseLoop 300000 3000 cb' replies' 0 0 []"
    by (simp add: waitForRelease_def)
  have sync: "now < tmo \<and> reply c = Inr st \<longrightarrow>
      (Status st = ''Succeeded'' \<longrightarrow>
         imageSyncLoop tmo ivl cb (c # rest) n now seen =
           \<lparr>progress = seen @ notify cb st, calls = Suc n, finished = now + took c,
            result = Returned\<rparr>) \<and>
      (Status st = ''Failed'' \<or> Status st = ''Canceled'' \<longrightarrow>
         imageSyncLoop tmo ivl cb (c # rest) n now seen =
           \<lparr>progress = seen @ notify cb st, calls = Suc n, finished = now + took c,
            result = Threw (''Image sync failed: ''
                              @ or_else (Description st) (Status st))\<rparr>) \<and>
      (sync_goes_on st \<longrightarrow>
         imageSyncLoop tmo ivl cb (c # rest) n now seen =
           imageSyncLoop tmo ivl cb rest (Suc n) (now + took c + ivl + overslept c)
             (seen @ notify cb st) \<and>
         (now + took c + ivl + overslept c < tmo \<longrightarrow>
            Suc (Suc n) \<le> calls (imageSyncLoop tmo ivl cb (c # rest) n now seen)))"
  proof (intro impI, elim conjE)
    assume a: "now < tmo" "reply c = Inr st"
    have more: "Suc (Suc n) \<le> calls (imageSyncLoop tmo ivl cb rest (Suc n)
        (now + took c + ivl + overslept c) (seen @ notify cb st))"
      if "now + took c + ivl + overslept c < tmo"
      by (rule calls_imageSyncLoop_in_time [OF that])
    from a more show "(Status st = ''Succeeded'' \<longrightarrow>
         imageSyncLoop tmo ivl cb (c # rest) n now seen =
           \<lparr>progress = seen @ notify cb st, calls = Suc n, finished = now + took c,
            result = Returned\<rparr>) \<and>
      (Status st = ''Failed'' \<or> Status st = ''Canceled'' \<longrightarrow>
         imageSyncLoop tmo ivl cb (c # rest) n now seen =
           \<lparr>progress = seen @ notify cb st, calls = Suc n, finished = now + took c,
            result = Threw (''Image sync failed: ''
                              @ or_else (Description st) (Status st))\<rparr>) \<and>
      (sync_goes_on st \<longrightarrow>
         imageSyncLoop tmo ivl cb (c # rest) n now seen =
           imageSyncLoop tmo ivl cb rest (Suc n) (now + took c + ivl + overslept c)
             (seen @ notify cb st) \<and>
         (now + took c + ivl + overslept c < tmo \<longrightarrow>
            Suc (Suc n) \<le> calls (imageSyncLoop tmo ivl cb (c # rest) n now seen)))"
      by (auto simp: sync_goes_on_def)
  qed
  have rel: "now < tmo \<and> reply c' = Inr st' \<longrightarrow>
      (releaseStatus st' = ''done'' \<longrightarrow>
         releaseLoop tmo ivl cb' (c' # rest') n now seen' =
           \<lparr>progress = seen' @ notify cb' st', calls = Suc n, finished = now + took c',
            result = Returned\<rparr>) \<and>
      (releaseStatus st' = ''failed'' \<longrightarrow>
         releaseLoop tmo ivl cb' (c' # rest') n now seen' =
           \<lparr>progress = seen' @ notify cb' st', calls = Suc n, finished = now + took c',
            result = Threw (''Release failed: ''
                              @ or_else (StatusMessage st')
                                  (or_else (ErrorCode st') ''Unknown error''))\<rparr>) \<and>
      (release_goes_on st' \<longrightarrow>
         releaseLoop tmo ivl cb' (c' # rest') n now seen' =
           releaseLoop tmo ivl cb' rest' (Suc n) (now + took c' + ivl + overslept c')
             (seen' @ notify cb' st') \<and>
         (now + took c' + ivl + overslept c' < tmo \<longrightarrow>
            Suc (Suc n) \<le> calls (releaseLoop tmo ivl cb' (c' # rest') n now seen')))"
  proof (intro impI, elim conjE)
    assume a: "now < tmo" "reply c' = Inr st'"
    have more: "Suc (Suc n) \<le> calls (releaseLoop tmo ivl cb' rest' (Suc n)
        (now + took c' + ivl + overslept c') (seen' @ notify cb' st'))"
      if "now + took c' + ivl + overslept c' < tmo"
      by (rule calls_releaseLoop_in_time [OF that])
    from a more show "(releaseStatus st' = ''done'' \<longrightarrow>
         releaseLoop tmo ivl cb' (c' # rest') n now seen' =
           \<lparr>progress = seen' @ notify cb' st', calls = Suc n, finished = now + took c',
            result = Returned\<rparr>) \<and>
      (releaseStatus st' = ''failed'' \<longrightarrow>
         releaseLoop tmo ivl cb' (c' # rest') n now seen' =
           \<lparr>progress = seen' @ notify cb' st', calls = Suc n, finished = now + took c',
            result = Threw (''Release failed: ''
                              @ or_else (StatusMessage st')
                                  (or_else (ErrorCode st') ''Unknown error''))\<rparr>) \<and>
      (release_goes_on st' \<longrightarrow>
         releaseLoop tmo ivl cb' (c' # rest') n now seen' =
           releaseLoop tmo ivl cb' rest' (Suc n) (now + took c' + ivl + overslept c')
             (seen' @ notify cb' st') \<and>
         (now + took c' + ivl + overslept c' < tmo \<longrightarrow>
            Suc (Suc n) \<le> calls (releaseLoop tmo ivl cb' (c' # rest') n now seen')))"
      by (auto simp: release_goes_on_def)
  qed
  have sync_returns: "result (waitForImageSync script options) = Returned \<longrightarrow>
      (\<exists>k<length script.
          (\<exists>st. reply (script ! k) = Inr st \<and> Status st = ''Succeeded'') \<and>
          calls (waitForImageSync script options) = Suc k \<and>
          (\<forall>j<k. \<exists>st. reply (script ! j) = Inr st \<and> sync_goes_on st))"
  proof
    assume r: "result (waitForImageSync script options) = Returned"
    from imageSyncLoop_returns_at_success [OF r [unfolded waitForImageSync_def]]
    show "\<exists>k<length script.
          (\<exists>st. reply (script ! k) = Inr st \<and> Status st = ''Succeeded'') \<and>
          calls (waitForImageSync script options) = Suc k \<and>
          (\<forall>j<k. \<exists>st. reply (script ! j) = Inr st \<and> sync_goes_on st)"
      unfolding waitForImageSync_def by simp
  qed
  have release_returns: "result (waitForRelease script' options') = Returned \<longrightarrow>
      (\<exists>k<length script'.
          (\<exists>st. reply (script' ! k) = Inr st \<and> releaseStatus st = ''done'') \<and>
          calls (waitForRelease script' options') = Suc k \<and>
          (\<forall>j<k. \<exists>st. reply (script' ! j) = Inr st \<and> release_goes_on st))"
  proof
    assume r: "result (waitForRelease script' options') = Returned"
    from releaseLoop_returns_at_done [OF r [unfolded waitForRelease_def]]
    show "\<exists>k<length script'.
          (\<exists>st. reply (script' ! k) = Inr st \<and> releaseStatus st = ''done'') \<and>
          calls (waitForRelease script' options') = Suc k \<and>
          (\<forall>j<k. \<exists>st. reply (script' ! j) = Inr st \<and> release_goes_on st)"
      unfolding waitForRelease_def by simp
  qed
  show ?thesis
    by (intro conjI)
      (rule default_sync, rule default_release, rule sync, rule rel, rule sync_returns,
        rule release_returns)
qed

theorem poll_terminal_statuses_witness:
  "result (imageSyncLoop 300000 5000 (Some (\<lambda>st. st)) [sync_reply ''Succeeded''] 0 0 [])
     = Returned \<and>
   result (imageSyncLoop 300000 5000 (Some (\<lambda>st. st)) [sync_reply ''Canceled''] 0 0 [])
     = Threw ''Image sync failed: Canceled'' \<and>
   imageSyncLoop 300000 5000 (Some (\<lambda>st. st))
       [sync_reply ''Running'', sync_reply ''Succeeded''] 0 0 [] =
     imageSyncLoop 300000 5000 (Some (\<lambda>st. st)) [sync_reply ''Succeeded''] 1 5041
       [\<lparr>Status = ''Running'', Description = None\<rparr>] \<and>
   2 \<le> calls (imageSyncLoop 300000 5000 (Some (\<lambda>st. st))
       [sync_reply ''Running'', sync_reply ''Succeeded''] 0 0 []) \<and>
   result (releaseLoop 300000 3000 (Some (\<lambda>st. st)) [release_reply ''done''] 0 0 [])
     = Returned \<and>
   result (releaseLoop 300000 3000 (Some (\<lambda>st. st)) [release_reply ''failed''] 0 0 [])
     = Threw ''Release failed: Unknown error'' \<and>
   releaseLoop 300000 3000 (Some (\<lambda>st. st))
       [release_reply ''inprogress'', release_reply ''done''] 0 0 [] =
     releaseLoop 300000 3000 (Some (\<lambda>st. st)) [release_reply ''done''] 1 3041
       [\<lparr>releaseStatus = ''inprogress'', StatusMessage = None, ErrorCode = None\<rparr>] \<and>
   2 \<le> calls (releaseLoop 300000 3000 (Some (\<lambda>st. st))
       [release_reply ''inprogress'', release_reply ''done''] 0 0 [])"
proof -
  let ?cb = "Some (\<lambda>st::ImageSyncStatus. st)"
  let ?cb' = "Some (\<lambda>st::ReleaseInfo. st)"
  have ok: "(0::nat) < 300000" by simp
  have s1: "reply (sync_reply s) = Inr \<lparr>Status = s, Description = None\<rparr>" for s
    by (simp add: sync_reply_def)
  have r1: "reply (release_reply s)
              = Inr \<lparr>releaseStatus = s, StatusMessage = None, ErrorCode = None\<rparr>" for s
    by (simp add: release_reply_def)
  note T = poll_terminal_statuses [where tmo = 300000 and now = 0 and n = 0
      and cb = ?cb and cb' = ?cb' and seen = "[]" and seen' = "[]"]
  have a: "result (imageSyncLoop 300000 5000 ?cb [sync_reply ''Succeeded''] 0 0 [])
             = Returned"
    using T [where c = "sync_reply ''Succeeded''" and ivl = 5000 and rest = "[]"
        and st = "\<lparr>Status = ''Succeeded'', Description = None\<rparr>"] s1
    by simp
  have b: "result (imageSyncLoop 300000 5000 ?cb [sync_reply ''Canceled''] 0 0 [])
             = Threw ''Image sync failed: Canceled''"
    using T [where c = "sync_reply ''Canceled''" and ivl = 5000 and rest = "[]"
        and st = "\<lparr>Status = ''Canceled'', Description = None\<rparr>"] s1
    by (simp add: or_else_def)
  have c: "imageSyncLoop 300000 5000 ?cb
             [sync_reply ''Running'', sync_reply ''Succeeded''] 0 0 [] =
           imageSyncLoop 300000 5000 ?cb [sync_reply ''Succeeded''] 1 5041
             [\<lparr>Status = ''Running'', Description = None\<rparr>] \<and>
           2 \<le> calls (imageSyncLoop 300000 5000 ?cb
             [sync_reply ''Running'', sync_reply ''Succeeded''] 0 0 [])"
    using T [where c = "sync_reply ''Running''" and ivl = 5000
        and rest = "[sync_reply ''Succeeded'']"
        and st = "\<lparr>Status = ''Running'', Description = None\<rparr>"] s1
    by (simp add: sync_goes_on_def notify_def sync_reply_def)
  have d: "result (releaseLoop 300000 3000 ?cb' [release_reply ''done''] 0 0 [])
             = Returned"
    using T [where c' = "release_reply ''done''" and ivl = 3000 and rest' = "[]"
        and st' = "\<lparr>releaseStatus = ''done'', StatusMessage = None, ErrorCode = None\<rparr>"] r1
    by simp
  have e: "result (releaseLoop 300000 3000 ?cb' [release_reply ''failed''] 0 0 [])
             = Threw ''Release failed: Unknown error''"
    using T [where c' = "release_reply ''failed''" and ivl = 3000 and rest' = "[]"
        and st' = "\<lparr>releaseStatus = ''failed'', StatusMessage = None, ErrorCode = None\<rparr>"] r1
    by (simp add: or_else_def)
  have f: "releaseLoop 300000 3000 ?cb'
             [release_reply ''inprogress'', release_reply ''done''] 0 0 [] =
           releaseLoop 300000 3000 ?cb' [release_reply ''done''] 1 3041
             [\<lparr>releaseStatus = ''inprogress'', StatusMessage = None, ErrorCode = None\<rparr>] \<and>
           2 \<le> calls (releaseLoop 300000 3000 ?cb'
             [release_reply ''inprogress'', release_reply ''done''] 0 0 [])"
    using T [where c' = "release_reply ''inprogress''" and ivl = 3000
        and rest' = "[release_reply ''done'']"
        and st' = "\<lparr>releaseStatus = ''inprogress'', StatusMessage = None, ErrorCode = None\<rparr>"] r1
    by (simp add: release_goes_on_def notify_def release_reply_def)
  from a b c d e f show ?thesis by blast
qed

text \<open>
  Claim C8, as amended. If the first two status requests return statuses at which the wait
  goes on, the third returns Succeeded, the interval is 0, and the timeout has not passed at
  the loop test before each of the three requests, then the image-sync wait returns
  normally after exactly three requests, and the progress callback has been called once
  for each of the three statuses, the last call being the one for Succeeded.
\<close>

theorem poll_returns_on_third_call:
  assumes "reply c1 = Inr s1" and "reply c2 = Inr s2" and "reply c3 = Inr s3"
    and "sync_goes_on s1" and "sync_goes_on s2" and "Status s3 = ''Succeeded''"
    and "interval options = Some 0"
    and "tmo = (case timeout options of None \<Rightarrow> 300000 | Some t \<Rightarrow> t)"
    and "0 < tmo"
    and "took c1 + overslept c1 < tmo"
    and "took c1 + overslept c1 + took c2 + overslept c2 < tmo"
  shows "waitForImageSync (c1 # c2 # c3 # rest) options =
           \<lparr>progress = notify (onProgress options) s1 @ notify (onProgress options) s2
                         @ notify (onProgress options) s3,
            calls = 3,
            finished = took c1 + overslept c1 + took c2 + overslept c2 + took c3,
            result = Returned\<rparr>"
  using assms
  by (simp add: waitForImageSync_def sync_goes_on_def numeral_3_eq_3 split: option.splits)

theorem poll_returns_on_third_call_witness:
  "waitForImageSync
     [sync_reply ''Pending'', sync_reply ''Running'', sync_reply ''Succeeded'',
      sync_reply ''Failed'']
     (report_all None (Some 0)) =
   \<lparr>progress = [\<lparr>Status = ''Pending'', Description = None\<rparr>,
                \<lparr>Status = ''Running'', Description = None\<rparr>,
                \<lparr>Status = ''Succeeded'', Description = None\<rparr>],
    calls = 3, finished = 122, result = Returned\<rparr>"
  using poll_returns_on_third_call
    [of "sync_reply ''Pending''" "\<lparr>Status = ''Pending'', Description = None\<rparr>"
        "sync_reply ''Running''" "\<lparr>Status = ''Running'', Description = None\<rparr>"
        "sync_reply ''Succeeded''" "\<lparr>Status = ''Succeeded'', Description = None\<rparr>"
        "report_all None (Some 0)" 300000 "[sync_reply ''Failed'']"]
  by (simp add: sync_reply_def report_all_def sync_goes_on_def notify_def)

text \<open>
  Claim C8 as it stands fails: with a timeout of 0 the loop test fails at once and no
  request is made; with the default timeout and a first request that takes 300000 ms the
  wait ends after one request. Both end in the timeout error.
\<close>

theorem poll_third_call_counterexample:
  "waitForImageSync
     [sync_reply ''Pending'', sync_reply ''Running'', sync_reply ''Succeeded'']
     (report_all (Some 0) (Some 0)) =
   \<lparr>progress = [], calls = 0, finished = 0, result = Threw ''Image sync timeout''\<rparr> \<and>
   waitForImageSync
     [(sync_reply ''Pending'')\<lparr>took := 300000\<rparr>, sync_reply ''Running'',
      sync_reply ''Succeeded'']
     (report_all None (Some 0)) =
   \<lparr>progress = [\<lparr>Status = ''Pending'', Description = None\<rparr>], calls = 1,
    finished = 300001, result = Threw ''Image sync timeout''\<rparr>"
  by (simp add: waitForImageSync_def sync_reply_def report_all_def notify_def)








section \<open>The signature\<close>


lemma join_two: "join sep [a, b] = a @ sep @ b"
  by simp

lemma canonical_query_example:
  "getCanonicalQueryString (Some [(''b'', ''2''), (''a'', ''1'')]) = ''a=1&b=2''"
  by code_simp

lemma time_stamps_example:
  "dateStampOf ''2026-11-02T18:58:00.123Z'' = ''20261102'' \<and>
   xDateOf ''2026-11-02T18:58:00.123Z'' = ''20261102T185800Z''"
  by code_simp




section \<open>The request of the client\<close>

lemma truthy_iff:
  "truthy r =
     (r \<noteq> None \<and> r \<noteq> Some JNull \<and> r \<noteq> Some (JBool False) \<and> r \<noteq> Some (JNum 0)
      \<and> r \<noteq> Some (JStr []))"
  by (cases r rule: truthy.cases) auto

lemma request_answered:
  assumes "fetch (sentRequest C stringify isoNow this action params) = Inr response"
    and "json_body response = Some (JObj envelope)"
  shows "request C stringify isoNow fetch this action params =
           (if response_ok response \<and> truthy (map_of envelope ''Result'')
            then Inr (the (map_of envelope ''Result''))
            else Inl (FaaSApiError
                   (''FaaS API Error ['' @ action @ '']: '' @ decimal (http_status response)
                      @ '' - '' @ stringify (JObj envelope))))"
  using assms by (simp add: request_def sentRequest_def Let_def)

text \<open>
  Claim C2, as amended. When the request is answered by a response whose body parses as a
  JSON object, the request throws exactly when the HTTP status is not 2xx or the Result
  field of the envelope is false as a condition (absent, null, false, 0 or the empty
  string), whatever else the envelope holds; the message of the error is
  \<open>FaaS API Error [action]: status - body\<close> with the body as \<open>JSON.stringify\<close> writes the
  parsed envelope; on a 2xx response with any other Result it returns that Result.
\<close>

theorem request_throws_iff_not_ok_or_falsy_result:
  "fetch (sentRequest C stringify isoNow this action params) = Inr response \<and>
   json_body response = Some (JObj envelope) \<longrightarrow>
     ((\<exists>e. request C stringify isoNow fetch this action params = Inl e) =
        (\<not> (200 \<le> http_status response \<and> http_status response \<le> 299) \<or>
         map_of envelope ''Result'' \<in>
           {None, Some JNull, Some (JBool False), Some (JNum 0), Some (JStr [])})) \<and>
     ((\<exists>e. request C stringify isoNow fetch this action params = Inl e) \<longrightarrow>
        request C stringify isoNow fetch this action params =
          Inl (FaaSApiError
                 (''FaaS API Error ['' @ action @ '']: '' @ decimal (http_status response)
                    @ '' - '' @ stringify (JObj envelope)))) \<and>
     ((\<forall>e. request C stringify isoNow fetch this action params \<noteq> Inl e) \<longrightarrow>
        (\<exists>r. map_of envelope ''Result'' = Some r \<and>
             request C stringify isoNow fetch this action params = Inr r))"
proof (intro impI, elim conjE)
  assume a: "fetch (sentRequest C stringify isoNow this action params) = Inr response"
    "json_body response = Some (JObj envelope)"
  note r = request_answered [where fetch = fetch and C = C and stringify = stringify
      and isoNow = isoNow and this = this and action = action and params = params, OF a]
  show "((\<exists>e. request C stringify isoNow fetch this action params = Inl e) =
        (\<not> (200 \<le> http_status response \<and> http_status response \<le> 299) \<or>
         map_of envelope ''Result'' \<in>
           {None, Some JNull, Some (JBool False), Some (JNum 0), Some (JStr [])})) \<and>
     ((\<exists>e. request C stringify isoNow fetch this action params = Inl e) \<longrightarrow>
        request C stringify isoNow fetch this action params =
          Inl (FaaSApiError
                 (''FaaS API Error ['' @ action @ '']: '' @ decimal (http_status response)
                    @ '' - '' @ stringify (JObj envelope)))) \<and>
     ((\<forall>e. request C stringify isoNow fetch this action params \<noteq> Inl e) \<longrightarrow>
        (\<exists>r. map_of envelope ''Result'' = Some r \<and>
             request C stringify isoNow fetch this action params = Inr r))"
    unfolding r by (auto simp: response_ok_def truthy_iff)
qed

theorem request_throws_iff_not_ok_or_falsy_result_witness:
  "request demo_crypto (\<lambda>j. ''{..}'') ''2026-11-02T18:58:00.123Z''
     (answer 200 [(''ResponseMetadata'', demo_metadata),
                  (''Result'', JObj [(''Id'', JStr ''fn-api'')])])
     demo_client ''GetFunction'' (JObj [(''Id'', JStr ''fn-api'')])
     = Inr (JObj [(''Id'', JStr ''fn-api'')]) \<and>
   request demo_crypto (\<lambda>j. ''{..}'') ''2026-11-02T18:58:00.123Z''
     (answer 403 [(''ResponseMetadata'', demo_metadata),
                  (''Result'', JObj [(''Id'', JStr ''fn-api'')])])
     demo_client ''GetFunction'' (JObj [(''Id'', JStr ''fn-api'')])
     = Inl (FaaSApiError ''FaaS API Error [GetFunction]: 403 - {..}'')"
proof -
  let ?ok = "[(''ResponseMetadata'', demo_metadata),
              (''Result'', JObj [(''Id'', JStr ''fn-api'')])]"
  have d: "decimal 403 = ''403''"
    by code_simp
  have a: "request demo_crypto (\<lambda>j. ''{..}'') ''2026-11-02T18:58:00.123Z''
      (answer 200 ?ok) demo_client ''GetFunction'' (JObj [(''Id'', JStr ''fn-api'')])
      = Inr (JObj [(''Id'', JStr ''fn-api'')])"
    using request_throws_iff_not_ok_or_falsy_result
      [where fetch = "answer 200 ?ok"
         and response = "\<lparr>http_status = 200, json_body = Some (JObj ?ok)\<rparr>"
         and envelope = ?ok and C = demo_crypto and stringify = "\<lambda>j. ''{..}''"
         and isoNow = "''2026-11-02T18:58:00.123Z''" and this = demo_client
         and action = "''GetFunction''" and params = "JObj [(''Id'', JStr ''fn-api'')]"]
    by (auto simp: answer_def)
  have b: "request demo_crypto (\<lambda>j. ''{..}'') ''2026-11-02T18:58:00.123Z''
      (answer 403 ?ok) demo_client ''GetFunction'' (JObj [(''Id'', JStr ''fn-api'')])
      = Inl (FaaSApiError ''FaaS API Error [GetFunction]: 403 - {..}'')"
    using request_throws_iff_not_ok_or_falsy_result
      [where fetch = "answer 403 ?ok"
         and response = "\<lparr>http_status = 403, json_body = Some (JObj ?ok)\<rparr>"
         and envelope = ?ok and C = demo_crypto and stringify = "\<lambda>j. ''{..}''"
         and isoNow = "''2026-11-02T18:58:00.123Z''" and this = demo_client
         and action = "''GetFunction''" and params = "JObj [(''Id'', JStr ''fn-api'')]"] d
    by (auto simp: answer_def)
  from a b show ?thesis by blast
qed

text \<open>
  Claim C2 as it stands fails: a 2xx response whose envelope has the Result field, with
  the empty string as its value, makes the request throw.
\<close>

theorem request_present_result_counterexample:
  "response_ok \<lparr>http_status = 200,
      json_body = Some (JObj [(''ResponseMetadata'', demo_metadata), (''Result'', JStr [])])\<rparr> \<and>
   property (JObj [(''ResponseMetadata'', demo_metadata), (''Result'', JStr [])]) ''Result''
     = Some (JStr []) \<and>
   request demo_crypto (\<lambda>j. ''{..}'') ''2026-11-02T18:58:00.123Z''
     (answer 200 [(''ResponseMetadata'', demo_metadata), (''Result'', JStr [])])
     demo_client ''UpdateFunction'' (JObj [(''Id'', JStr ''fn-api'')])
     = Inl (FaaSApiError ''FaaS API Error [UpdateFunction]: 200 - {..}'')"
proof -
  have d: "decimal 200 = ''200''"
    by code_simp
  show ?thesis
    by (simp add: request_def Let_def answer_def response_ok_def d del: decimal.simps)
qed


section \<open>What one pass of the loop does to the steps\<close>

lemma updates_for_addressed:
  "\<forall>op\<in>set ops. \<exists>u. op = UpdateStep i u \<Longrightarrow> x \<noteq> i \<Longrightarrow> updates_for x ops = []"
  by (induction ops) auto

lemma statuses_of_messages:
  "\<forall>op\<in>set ops. \<exists>i m. op = UpdateStep i (set_message m) \<Longrightarrow>
     statuses (updates_for x ops) = []"
  by (induction ops) (auto simp: statuses_Nil statuses_Cons set_message_def)

lemma progress_imageSyncLoop:
  "op \<in> set (progress (imageSyncLoop tmo ivl (Some f) script n now seen)) \<Longrightarrow>
     op \<in> set seen \<or> op \<in> range f"
proof (induction script arbitrary: n now seen)
  case Nil
  then show ?case by (simp split: if_splits)
next
  case (Cons c rest)
  show ?case
  proof (cases "reply c")
    case (Inl e)
    with Cons.prems show ?thesis by (simp split: if_splits)
  next
    case (Inr st)
    show ?thesis
    proof (cases "now < tmo \<and> sync_goes_on st")
      case True
      with Cons.prems Inr
      have "op \<in> set (progress (imageSyncLoop tmo ivl (Some f) rest (Suc n)
              (now + took c + ivl + overslept c) (seen @ notify (Some f) st)))"
        by (simp add: sync_goes_on_def)
      from Cons.IH [OF this] show ?thesis by (auto simp: notify_def)
    next
      case False
      with Cons.prems Inr show ?thesis
        by (auto simp: sync_goes_on_def notify_def split: if_splits)
    qed
  qed
qed

lemma progress_releaseLoop:
  "op \<in> set (progress (releaseLoop tmo ivl (Some f) script n now seen)) \<Longrightarrow>
     op \<in> set seen \<or> op \<in> range f"
proof (induction script arbitrary: n now seen)
  case Nil
  then show ?case by (simp split: if_splits)
next
  case (Cons c rest)
  show ?case
  proof (cases "reply c")
    case (Inl e)
    with Cons.prems show ?thesis by (simp split: if_splits)
  next
    case (Inr st)
    show ?thesis
    proof (cases "now < tmo \<and> release_goes_on st")
      case True
      with Cons.prems Inr
      have "op \<in> set (progress (releaseLoop tmo ivl (Some f) rest (Suc n)
              (now + took c + ivl + overslept c) (seen @ notify (Some f) st)))"
        by (simp add: release_goes_on_def)
      from Cons.IH [OF this] show ?thesis by (auto simp: notify_def)
    next
      case False
      with Cons.prems Inr show ?thesis
        by (auto simp: release_goes_on_def notify_def split: if_splits)
    qed
  qed
qed

lemma sync_progress_ops:
  "\<forall>op\<in>set (progress (waitForImageSync replies
       \<lparr>timeout = t, interval = i,
        onProgress = Some (\<lambda>st. UpdateStep x (set_message (Status st)))\<rparr>)).
     \<exists>m. op = UpdateStep x (set_message m)"
  by (auto simp: waitForImageSync_def dest!: progress_imageSyncLoop)

lemma release_progress_ops:
  "\<forall>op\<in>set (progress (waitForRelease replies
       \<lparr>timeout = t, interval = i,
        onProgress = Some (\<lambda>st. UpdateStep x (set_message (releaseStatus st)))\<rparr>)).
     \<exists>m. op = UpdateStep x (set_message m)"
  by (auto simp: waitForRelease_def dest!: progress_releaseLoop)

lemma updates_buildPhase:
  "updates_for x (fst (buildPhase config options w s tag)) =
     (if x = s @ ''-build'' \<and> \<not> skipBuild options then
        set_status Running #
          (if snd (buildServiceImage config s (build_run w)) = Returned then
             [\<lparr>p_status = Some Success, p_message = Some tag,
               p_duration = Some (proc_elapsed (build_run w))\<rparr>]
           else [])
      else [])"
  by (auto simp: buildPhase_def seq_Cons updates_for_append buildServiceImage_def
      buildDockerImage_def updates_for_logs split: option.splits)

lemma snd_buildPhase:
  "snd (buildPhase config options w s tag) =
     (if skipBuild options then Returned else snd (buildServiceImage config s (build_run w)))"
  by (auto simp: buildPhase_def seq_Cons)

lemma updates_pushPhase:
  "updates_for x (fst (pushPhase options w s tag)) =
     (if x = s @ ''-push'' \<and> \<not> skipPush options then
        set_status Running #
          (if proc_outcome (push_run w) = Returned then
             [\<lparr>p_status = Some Success, p_message = None,
               p_duration = Some (proc_elapsed (push_run w))\<rparr>]
           else [])
      else [])"
  by (auto simp: pushPhase_def seq_Cons updates_for_append pushDockerImage_def
      updates_for_logs)

lemma snd_pushPhase:
  "snd (pushPhase options w s tag) =
     (if skipPush options then Returned else proc_outcome (push_run w))"
  by (auto simp: pushPhase_def seq_Cons pushDockerImage_def)

lemma faasPhase_skipped:
  "faasClient = None \<or> functionId svc = [] \<Longrightarrow>
     faasPhase faasClient svc w s tag =
       (map (\<lambda>suffix. UpdateStep (s @ suffix)
                \<lparr>p_status = Some Skipped,
                 p_message = Some (if faasClient = None then ''No credentials''
                                   else ''No function ID''),
                 p_duration = None\<rparr>)
          [''-update'', ''-sync'', ''-release'', ''-wait-release''], Returned)"
  by (auto simp: faasPhase_def Let_def)

lemma faasPhase_untouched:
  assumes "x \<noteq> s @ ''-update''" and "x \<noteq> s @ ''-sync''" and "x \<noteq> s @ ''-release''"
    and "x \<noteq> s @ ''-wait-release''"
  shows "updates_for x (fst (faasPhase faasClient svc w s tag)) = []"
proof (cases "faasClient = None \<or> functionId svc = []")
  case True
  from faasPhase_skipped [OF this] assms show ?thesis by auto
next
  case False
  have p1: "updates_for x (progress (waitForImageSync (sync_replies w)
       \<lparr>timeout = None, interval = None,
        onProgress = Some (\<lambda>st. UpdateStep (s @ ''-sync'') (set_message (Status st)))\<rparr>)) = []"
    using sync_progress_ops assms(2) by (intro updates_for_addressed [where i = "s @ ''-sync''"]) blast+
  have p2: "updates_for x (progress (waitForRelease (release_replies w)
       \<lparr>timeout = None, interval = None,
        onProgress = Some (\<lambda>st. UpdateStep (s @ ''-wait-release'')
                                   (set_message (releaseStatus st)))\<rparr>)) = []"
    using release_progress_ops assms(4)
    by (intro updates_for_addressed [where i = "s @ ''-wait-release''"]) blast+
  from False assms show ?thesis
    by (simp add: faasPhase_def Let_def seq_Cons updates_for_append p1 p2)
qed

lemma faasPhase_chain:
  "chain Pending (statuses (updates_for x (fst (faasPhase faasClient svc w s tag))))"
proof (cases "faasClient = None \<or> functionId svc = []")
  case True
  from faasPhase_skipped [OF this] show ?thesis
    by (auto simp: statuses_Nil statuses_Cons)
next
  case False
  have p1: "statuses (updates_for y (progress (waitForImageSync (sync_replies w)
       \<lparr>timeout = None, interval = None,
        onProgress = Some (\<lambda>st. UpdateStep (s @ ''-sync'') (set_message (Status st)))\<rparr>))) = []"
    for y
    using sync_progress_ops by (intro statuses_of_messages) blast
  have p2: "statuses (updates_for y (progress (waitForRelease (release_replies w)
       \<lparr>timeout = None, interval = None,
        onProgress = Some (\<lambda>st. UpdateStep (s @ ''-wait-release'')
                                   (set_message (releaseStatus st)))\<rparr>))) = []"
    for y
    using release_progress_ops by (intro statuses_of_messages) blast
  consider "x = s @ ''-update''" | "x = s @ ''-sync''" | "x = s @ ''-release''"
    | "x = s @ ''-wait-release''"
    | "x \<noteq> s @ ''-update''" "x \<noteq> s @ ''-sync''" "x \<noteq> s @ ''-release''"
      "x \<noteq> s @ ''-wait-release''"
    by blast
  then show ?thesis
  proof cases
    case 1
    with False show ?thesis
      by (simp add: faasPhase_def Let_def seq_Cons updates_for_append statuses_append
          statuses_Nil statuses_Cons set_status_def p1 p2)
  next
    case 2
    with False show ?thesis
      by (simp add: faasPhase_def Let_def seq_Cons updates_for_append statuses_append
          statuses_Nil statuses_Cons set_status_def p1 p2)
  next
    case 3
    with False show ?thesis
      by (simp add: faasPhase_def Let_def seq_Cons updates_for_append statuses_append
          statuses_Nil statuses_Cons set_status_def p1 p2)
  next
    case 4
    with False show ?thesis
      by (simp add: faasPhase_def Let_def seq_Cons updates_for_append statuses_append
          statuses_Nil statuses_Cons set_status_def p1 p2)
  next
    case 5
    then show ?thesis
      by (simp add: faasPhase_untouched statuses_Nil)
  qed
qed

lemma updates_deployService:
  "updates_for x (fst (deployService config options faasClient w s)) =
     (case map_of (services config) s of
        None \<Rightarrow> []
      | Some svc \<Rightarrow>
          (let tag = getImageTag (registry config) (imageName svc) (versionOf options s) in
           updates_for x (fst (buildPhase config options w s tag)) @
           (if snd (buildPhase config options w s tag) = Returned then
              updates_for x (fst (pushPhase options w s tag)) @
              (if snd (pushPhase options w s tag) = Returned then
                 updates_for x (fst (faasPhase faasClient svc w s tag))
               else [])
            else [])))"
  by (simp add: deployService_def Let_def seq_Cons updates_for_append split: option.splits)

lemma deployService_untouched:
  "x \<notin> set (stepIds s) \<Longrightarrow>
     updates_for x (fst (deployService config options faasClient w s)) = []"
  by (simp add: updates_deployService updates_buildPhase updates_pushPhase
      faasPhase_untouched stepIds_def Let_def split: option.splits)

lemma step_ids_serviceSteps: "map step_id (serviceSteps options s) = stepIds s"
  by (simp add: serviceSteps_def stepIds_def mkStep_def)

lemma deployService_chain:
  assumes "st \<in> set (serviceSteps options s)"
  shows "chain (status st)
           (statuses (updates_for (step_id st)
              (fst (deployService config options faasClient w s))))"
proof (cases "map_of (services config) s")
  case None
  then show ?thesis by (simp add: updates_deployService statuses_Nil)
next
  case (Some svc)
  define tag where "tag = getImageTag (registry config) (imageName svc) (versionOf options s)"
  have faas: "chain Pending
      (statuses (updates_for x (fst (faasPhase faasClient svc w s tag))))" for x
    by (rule faasPhase_chain)
  from assms consider
      "step_id st = s @ ''-build''" "status st = (if skipBuild options then Skipped else Pending)"
    | "step_id st = s @ ''-push''" "status st = (if skipPush options then Skipped else Pending)"
    | "step_id st \<noteq> s @ ''-build''" "step_id st \<noteq> s @ ''-push''" "status st = Pending"
    by (auto simp: serviceSteps_def mkStep_def)
  then show ?thesis
  proof cases
    case 1
    then show ?thesis
      by (simp add: updates_deployService Some Let_def updates_buildPhase updates_pushPhase
          faasPhase_untouched statuses_Nil statuses_Cons set_status_def)
  next
    case 2
    then show ?thesis
      by (simp add: updates_deployService Some Let_def updates_buildPhase updates_pushPhase
          faasPhase_untouched statuses_Nil statuses_Cons set_status_def)
  next
    case 3
    then show ?thesis
      using faas [of "step_id st"]
      by (simp add: updates_deployService Some Let_def updates_buildPhase updates_pushPhase
          statuses_Nil tag_def)
  qed
qed

lemma snd_deployService:
  "snd (deployService config options faasClient w s) =
     (case map_of (services config) s of
        None \<Rightarrow> Returned
      | Some svc \<Rightarrow>
          (let tag = getImageTag (registry config) (imageName svc) (versionOf options s) in
           if snd (buildPhase config options w s tag) \<noteq> Returned then
             snd (buildPhase config options w s tag)
           else if snd (pushPhase options w s tag) \<noteq> Returned then
             snd (pushPhase options w s tag)
           else snd (faasPhase faasClient svc w s tag)))"
  by (simp add: deployService_def Let_def seq_Cons split: option.splits)


section \<open>The loop over the services\<close>

lemma deployLoop_Nil: "deployLoop config options faasClient ws start [] = ([], Returned)"
  by (simp add: deployLoop_def)

lemma deployLoop_Cons:
  "deployLoop config options faasClient ws start (s # rest) =
     seq [deployService config options faasClient (ws start) s,
          deployLoop config options faasClient ws (Suc start) rest]"
  by (simp add: deployLoop_def seq_Cons)

lemma step_ids_initialSteps:
  "map step_id (initialSteps options svcs) = concat (map stepIds svcs)"
  by (induction svcs) (simp_all add: step_ids_serviceSteps)

lemma deployLoop_untouched:
  "x \<notin> set (concat (map stepIds svcs)) \<Longrightarrow>
     updates_for x (fst (deployLoop config options faasClient ws start svcs)) = []"
  by (induction svcs arbitrary: start)
    (simp_all add: deployLoop_Nil deployLoop_Cons seq_Cons updates_for_append
      deployService_untouched)

lemma deployLoop_chain:
  assumes "distinct (concat (map stepIds svcs))" and "st \<in> set (initialSteps options svcs)"
  shows "chain (status st)
           (statuses (updates_for (step_id st)
              (fst (deployLoop config options faasClient ws start svcs))))"
  using assms
proof (induction svcs arbitrary: start)
  case Nil
  then show ?case by simp
next
  case (Cons s rest)
  from Cons.prems(1) have apart: "set (stepIds s) \<inter> set (concat (map stepIds rest)) = {}"
    and rest: "distinct (concat (map stepIds rest))"
    by simp_all
  let ?x = "step_id st"
  let ?here = "deployService config options faasClient (ws start) s"
  let ?later = "deployLoop config options faasClient ws (Suc start) rest"
  have split: "updates_for ?x (fst (deployLoop config options faasClient ws start (s # rest)))
      = updates_for ?x (fst ?here)
          @ (if snd ?here = Returned then updates_for ?x (fst ?later) else [])"
    by (simp add: deployLoop_Cons seq_Cons updates_for_append)
  from Cons.prems(2) consider "st \<in> set (serviceSteps options s)"
    | "st \<in> set (initialSteps options rest)"
    by auto
  then show ?case
  proof cases
    case 1
    then have "?x \<in> set (stepIds s)"
      using step_ids_serviceSteps [of options s] by (metis image_eqI set_map)
    with apart have "?x \<notin> set (concat (map stepIds rest))"
      by blast
    then have "updates_for ?x (fst ?later) = []"
      by (rule deployLoop_untouched)
    with deployService_chain [OF 1] show ?thesis
      unfolding split by simp
  next
    case 2
    then have "?x \<in> set (concat (map stepIds rest))"
      using step_ids_initialSteps [of options rest] by (metis image_eqI set_map)
    with apart have "?x \<notin> set (stepIds s)"
      by blast
    then have "updates_for ?x (fst ?here) = []"
      by (rule deployService_untouched)
    with Cons.IH [OF rest 2] show ?thesis
      unfolding split by (simp add: statuses_Nil)
  qed
qed

lemma updates_deploy:
  "updates_for x (deploy config options w) = updates_for x (fst (deployBody config options w))"
  by (cases "deployBody config options w"; cases "snd (deployBody config options w)")
    (simp_all add: deploy_def updates_for_append)

lemma steps_planEffect:
  "steps (planEffect (Some config) options initialState) =
     initialSteps options (servicesToDeploy options config)"
  by (simp add: planEffect_def initialState_def)

text \<open>
  Claim C5, as amended. In every run whose planned step identifiers are pairwise distinct,
  every setter call of the orchestrator moves every step forward along pending, running,
  then success, error or skipped: no call moves a step from running back to pending or
  changes a step that is success, error or skipped.
\<close>

theorem steps_move_forward:
  assumes "distinct (map step_id (initialSteps options (servicesToDeploy options config)))"
  shows "forward_run (deploy config options w)
           (planEffect (Some config) options initialState)"
proof -
  let ?svcs = "servicesToDeploy options config"
  from assms have apart: "distinct (concat (map stepIds ?svcs))"
    by (simp add: step_ids_initialSteps)
  have "chain (status st) (statuses (updates_for (step_id st) (deploy config options w)))"
    if "st \<in> set (initialSteps options ?svcs)" for st
  proof (cases "dockerAvailable w")
    case True
    with deployLoop_chain [OF apart that] show ?thesis
      by (simp add: updates_deploy deployBody_def)
  next
    case False
    then show ?thesis
      by (simp add: updates_deploy deployBody_def statuses_Nil)
  qed
  then show ?thesis
    by (simp add: forward_run_iff steps_planEffect)
qed

theorem steps_move_forward_witness:
  "distinct (map step_id (initialSteps demo_options (servicesToDeploy demo_options demo_config)))
   \<and> forward_run (deploy demo_config demo_options demo_world)
        (planEffect (Some demo_config) demo_options initialState)"
proof -
  have d: "distinct (map step_id
      (initialSteps demo_options (servicesToDeploy demo_options demo_config)))"
    by (simp add: servicesToDeploy_def demo_options_def demo_config_def serviceSteps_def
        mkStep_def)
  from d steps_move_forward [OF d, of demo_world] show ?thesis
    by simp
qed

text \<open>
  Claim C5 as it stands fails: when a service is selected twice, the second pass sets the
  build step, already success, to running again.
\<close>

theorem steps_move_forward_counterexample:
  "statuses (updates_for ''api-build'' (deploy demo_config twice_options demo_world)) =
     [Running, Success, Running, Success] \<and>
   \<not> forward_run (deploy demo_config twice_options demo_world)
       (planEffect (Some demo_config) twice_options initialState)"
proof -
  let ?ops = "deploy demo_config twice_options demo_world"
  let ?first = "hd (steps (planEffect (Some demo_config) twice_options initialState))"
  have first: "?first \<in> set (steps (planEffect (Some demo_config) twice_options initialState))"
    by (simp add: steps_planEffect servicesToDeploy_def twice_options_def demo_options_def
        serviceSteps_def)
  have build: "step_id ?first = ''api-build''" "status ?first = Pending"
    by (simp_all add: steps_planEffect servicesToDeploy_def twice_options_def demo_options_def
        serviceSteps_def mkStep_def)
  have moves: "statuses (updates_for ''api-build'' ?ops) = [Running, Success, Running, Success]"
    by (simp add: updates_deploy deployBody_def demo_world_def deployLoop_Cons deployLoop_Nil
        seq_Cons updates_for_append updates_deployService updates_buildPhase updates_pushPhase
        snd_buildPhase snd_pushPhase snd_deployService faasPhase_skipped makeClient_def
        servicesToDeploy_def twice_options_def demo_options_def
        demo_config_def demo_service_def buildServiceImage_def
        buildDockerImage_def ok_service_world_def ok_proc_def statuses_Nil statuses_Cons
        set_status_def Let_def)
  then have "\<not> chain (status ?first) (statuses (updates_for (step_id ?first) ?ops))"
    by (simp add: build)
  with first have "\<not> forward_run ?ops (planEffect (Some demo_config) twice_options initialState)"
    unfolding forward_run_iff by blast
  with moves show ?thesis
    by simp
qed


section \<open>A pass without the control plane\<close>

lemma snd_buildServiceImage:
  "map_of (services config) s = Some svc \<Longrightarrow>
     snd (buildServiceImage config s run) = proc_outcome run"
  by (simp add: buildServiceImage_def buildDockerImage_def)

lemma deployService_skipping:
  assumes "map_of (services config) s = Some svc"
    and "faasClient = None \<or> functionId svc = []"
    and "skipBuild options \<or> proc_outcome (build_run w) = Returned"
    and "skipPush options \<or> proc_outcome (push_run w) = Returned"
    and "tag = getImageTag (registry config) (imageName svc) (versionOf options s)"
  shows "deployService config options faasClient w s =
           ([SetCurrentService s]
              @ fst (buildPhase config options w s tag)
              @ fst (pushPhase options w s tag)
              @ map (\<lambda>suffix. UpdateStep (s @ suffix)
                       \<lparr>p_status = Some Skipped,
                        p_message = Some (if faasClient = None then ''No credentials''
                                          else ''No function ID''),
                        p_duration = None\<rparr>)
                  [''-update'', ''-sync'', ''-release'', ''-wait-release''],
            Returned)"
proof -
  have b: "snd (buildPhase config options w s tag) = Returned"
    using assms(1,3) by (auto simp: snd_buildPhase snd_buildServiceImage)
  have p: "snd (pushPhase options w s tag) = Returned"
    using assms(4) by (auto simp: snd_pushPhase)
  show ?thesis
    using assms(1) b p faasPhase_skipped [OF assms(2), of w s tag]
    by (simp add: deployService_def Let_def seq_Cons assms(5) [symmetric])
qed

lemma steps_after_skipping:
  assumes "map_of (services config) s = Some svc"
    and "faasClient = None \<or> functionId svc = []"
    and "skipBuild options \<or> proc_outcome (build_run w) = Returned"
    and "skipPush options \<or> proc_outcome (push_run w) = Returned"
    and "tag = getImageTag (registry config) (imageName svc) (versionOf options s)"
  shows "steps (apply_ops (fst (deployService config options faasClient w s)) state) =
           map (\<lambda>st.
                  if step_id st = s @ ''-build'' \<and> \<not> skipBuild options then
                    st\<lparr>status := Success, message := Some tag,
                       duration := Some (proc_elapsed (build_run w))\<rparr>
                  else if step_id st = s @ ''-push'' \<and> \<not> skipPush options then
                    st\<lparr>status := Success, duration := Some (proc_elapsed (push_run w))\<rparr>
                  else if step_id st \<in> set (map (\<lambda>suffix. s @ suffix)
                            [''-update'', ''-sync'', ''-release'', ''-wait-release'']) then
                    st\<lparr>status := Skipped,
                       message := Some (if faasClient = None then ''No credentials''
                                        else ''No function ID'')\<rparr>
                  else st)
             (steps state)"
proof -
  have b: "snd (buildPhase config options w s tag) = Returned"
    using assms(1,3) by (auto simp: snd_buildPhase snd_buildServiceImage)
  have p: "snd (pushPhase options w s tag) = Returned"
    using assms(4) by (auto simp: snd_pushPhase)
  have bi: "snd (buildServiceImage config s (build_run w)) = proc_outcome (build_run w)"
    using assms(1) by (rule snd_buildServiceImage)
  note f = faasPhase_skipped [OF assms(2), of w s tag]
  show ?thesis
    unfolding steps_apply_ops
  proof (rule map_cong [OF refl])
    fix st
    show "foldl spread st
            (updates_for (step_id st) (fst (deployService config options faasClient w s))) =
          (if step_id st = s @ ''-build'' \<and> \<not> skipBuild options then
             st\<lparr>status := Success, message := Some tag,
                duration := Some (proc_elapsed (build_run w))\<rparr>
           else if step_id st = s @ ''-push'' \<and> \<not> skipPush options then
             st\<lparr>status := Success, duration := Some (proc_elapsed (push_run w))\<rparr>
           else if step_id st \<in> set (map (\<lambda>suffix. s @ suffix)
                     [''-update'', ''-sync'', ''-release'', ''-wait-release'']) then
             st\<lparr>status := Skipped,
                message := Some (if faasClient = None then ''No credentials''
                                 else ''No function ID'')\<rparr>
           else st)"
      using assms(3,4)
      by (auto simp: updates_deployService assms(1) assms(5) [symmetric] Let_def b p f
          updates_buildPhase updates_pushPhase bi spread_def set_status_def)
  qed
qed

lemma deployLoop_goes_on:
  "snd (deployService config options faasClient (ws start) s) = Returned \<Longrightarrow>
     deployLoop config options faasClient ws start (s # rest) =
       (fst (deployService config options faasClient (ws start) s)
          @ fst (deployLoop config options faasClient ws (Suc start) rest),
        snd (deployLoop config options faasClient ws (Suc start) rest))"
  by (simp add: deployLoop_Cons seq_Cons)

text \<open>
  Claim C7. No client is made when a credential is missing. For a configured service with
  no function identifier, or when no client was made, a pass whose build and push do not
  fail makes the setter calls of the build and push parts as for any service, then marks
  the update, sync, release and wait-release steps of the service skipped with the message
  \<open>No credentials\<close> (no client) or \<open>No function ID\<close>; the pass returns, and the loop goes
  on with the next service.
\<close>

theorem missing_precondition_skips_remote_steps:
  assumes "map_of (services config) s = Some svc"
    and "faasClient = None \<or> functionId svc = []"
    and "skipBuild options \<or> proc_outcome (build_run (ws start)) = Returned"
    and "skipPush options \<or> proc_outcome (push_run (ws start)) = Returned"
  shows
    "(accessKeyId creds = [] \<or> secretAccessKey creds = [] \<longrightarrow>
        makeClient run_options creds = None) \<and>
     (let tag = getImageTag (registry config) (imageName svc) (versionOf options s);
          reason = (if faasClient = None then ''No credentials'' else ''No function ID'');
          pass = deployService config options faasClient (ws start) s
      in pass =
           ([SetCurrentService s]
              @ fst (buildPhase config options (ws start) s tag)
              @ fst (pushPhase options (ws start) s tag)
              @ map (\<lambda>suffix. UpdateStep (s @ suffix)
                       \<lparr>p_status = Some Skipped, p_message = Some reason, p_duration = None\<rparr>)
                  [''-update'', ''-sync'', ''-release'', ''-wait-release''],
            Returned) \<and>
         deployLoop config options faasClient ws start (s # rest) =
           (fst pass @ fst (deployLoop config options faasClient ws (Suc start) rest),
            snd (deployLoop config options faasClient ws (Suc start) rest)) \<and>
         steps (apply_ops (fst pass) state) =
           map (\<lambda>st.
                  if step_id st = s @ ''-build'' \<and> \<not> skipBuild options then
                    st\<lparr>status := Success, message := Some tag,
                       duration := Some (proc_elapsed (build_run (ws start)))\<rparr>
                  else if step_id st = s @ ''-push'' \<and> \<not> skipPush options then
                    st\<lparr>status := Success,
                       duration := Some (proc_elapsed (push_run (ws start)))\<rparr>
                  else if step_id st \<in> set (map (\<lambda>suffix. s @ suffix)
                            [''-update'', ''-sync'', ''-release'', ''-wait-release'']) then
                    st\<lparr>status := Skipped, message := Some reason\<rparr>
                  else st)
             (steps state))"
proof -
  define tag where "tag = getImageTag (registry config) (imageName svc) (versionOf options s)"
  note pass = deployService_skipping [OF assms tag_def]
  have on: "deployLoop config options faasClient ws start (s # rest) =
      (fst (deployService config options faasClient (ws start) s)
         @ fst (deployLoop config options faasClient ws (Suc start) rest),
       snd (deployLoop config options faasClient ws (Suc start) rest))"
    by (rule deployLoop_goes_on) (simp add: pass)
  note after = steps_after_skipping [OF assms tag_def, of state]
  have unauthenticated: "accessKeyId creds = [] \<or> secretAccessKey creds = [] \<longrightarrow>
      makeClient run_options creds = None"
    by (auto simp: makeClient_def)
  show ?thesis
    unfolding Let_def tag_def [symmetric]
    by (intro conjI) (rule unauthenticated, rule pass, rule on, rule after)
qed

theorem missing_precondition_skips_remote_steps_witness:
  "map_of (services unbound_config) ''api'' = Some (demo_service ''demo-api'' []) \<and>
   functionId (demo_service ''demo-api'' []) = [] \<and>
   proc_outcome (build_run ok_service_world) = Returned \<and>
   proc_outcome (push_run ok_service_world) = Returned \<and>
   map (\<lambda>st. (step_id st, status st, message st))
     (steps (apply_ops (fst (deployService unbound_config demo_options (Some demo_client)
                               ok_service_world ''api''))
        (planEffect (Some unbound_config) demo_options initialState))) =
     [(''api-build'', Success, Some ''r.example.com/ns/demo-api:v1.0.1''),
      (''api-push'', Success, None),
      (''api-update'', Skipped, Some ''No function ID''),
      (''api-sync'', Skipped, Some ''No function ID''),
      (''api-release'', Skipped, Some ''No function ID''),
      (''api-wait-release'', Skipped, Some ''No function ID'')] \<and>
   snd (deployService unbound_config demo_options (Some demo_client) ok_service_world ''api'')
     = Returned"
proof -
  have svc: "map_of (services unbound_config) ''api'' = Some (demo_service ''demo-api'' [])"
    by (simp add: unbound_config_def demo_config_def)
  have unbound: "functionId (demo_service ''demo-api'' []) = []"
    by (simp add: demo_service_def)
  then have pre: "Some demo_client = None \<or> functionId (demo_service ''demo-api'' []) = []"
    by simp
  have ok: "proc_outcome (build_run ok_service_world) = Returned"
    "proc_outcome (push_run ok_service_world) = Returned"
    by (simp_all add: ok_service_world_def ok_proc_def)
  have b: "skipBuild demo_options \<or> proc_outcome (build_run ok_service_world) = Returned"
    and p: "skipPush demo_options \<or> proc_outcome (push_run ok_service_world) = Returned"
    using ok by simp_all
  have plan: "steps (planEffect (Some unbound_config) demo_options initialState) =
      serviceSteps demo_options ''api''"
    by (simp add: steps_planEffect servicesToDeploy_def demo_options_def unbound_config_def
        demo_config_def)
  note T = missing_precondition_skips_remote_steps
    [where config = unbound_config and s = "''api''" and svc = "demo_service ''demo-api'' []"
       and faasClient = "Some demo_client" and options = demo_options
       and ws = "\<lambda>i. ok_service_world" and start = 0 and rest = "[]"
       and state = "planEffect (Some unbound_config) demo_options initialState",
     unfolded Let_def, OF svc pre b p]
  note pass = T [THEN conjunct2, THEN conjunct1]
  note steps_after = T [THEN conjunct2, THEN conjunct2, THEN conjunct2]
  have after: "map (\<lambda>st. (step_id st, status st, message st))
     (steps (apply_ops (fst (deployService unbound_config demo_options (Some demo_client)
                               ok_service_world ''api''))
        (planEffect (Some unbound_config) demo_options initialState))) =
     [(''api-build'', Success, Some ''r.example.com/ns/demo-api:v1.0.1''),
      (''api-push'', Success, None),
      (''api-update'', Skipped, Some ''No function ID''),
      (''api-sync'', Skipped, Some ''No function ID''),
      (''api-release'', Skipped, Some ''No function ID''),
      (''api-wait-release'', Skipped, Some ''No function ID'')]"
    unfolding steps_after plan
    by (simp add: serviceSteps_def mkStep_def demo_options_def getImageTag_def versionOf_def
        or_else_def unbound_config_def demo_config_def demo_service_def)
  have returned: "snd (deployService unbound_config demo_options (Some demo_client)
      ok_service_world ''api'') = Returned"
    unfolding pass by simp
  from svc unbound ok after returned show ?thesis
    by blast
qed

text \<open>
  Claim C10. With dry-run set no client is made, whatever the credentials. The build and
  push parts of a pass are those of the run without dry-run (they follow skip-build and
  skip-push only), and a pass whose build and push do not fail marks the update, sync,
  release and wait-release steps skipped with the message \<open>No credentials\<close>.
\<close>

theorem dry_run_builds_and_pushes_only:
  assumes "dryRun options"
  shows
    "makeClient options creds = None \<and>
     (dockerAvailable w \<longrightarrow>
        deployBody config options w =
          deployLoop config options None (at_service w) 0 (servicesToDeploy options config)) \<and>
     buildPhase config (options\<lparr>dryRun := False\<rparr>) sw s tag = buildPhase config options sw s tag \<and>
     pushPhase (options\<lparr>dryRun := False\<rparr>) sw s tag = pushPhase options sw s tag \<and>
     (map_of (services config) s = Some svc \<longrightarrow>
        (\<forall>live. deployService config (options\<lparr>dryRun := live\<rparr>) faasClient sw s =
           seq [([SetCurrentService s], Returned),
                buildPhase config options sw s
                  (getImageTag (registry config) (imageName svc) (versionOf options s)),
                pushPhase options sw s
                  (getImageTag (registry config) (imageName svc) (versionOf options s)),
                faasPhase faasClient svc sw s
                  (getImageTag (registry config) (imageName svc) (versionOf options s))])) \<and>
     (map_of (services config) s = Some svc \<and>
      (skipBuild options \<or> proc_outcome (build_run sw) = Returned) \<and>
      (skipPush options \<or> proc_outcome (push_run sw) = Returned) \<longrightarrow>
        deployService config options (makeClient options creds) sw s =
          ([SetCurrentService s]
             @ fst (buildPhase config options sw s
                      (getImageTag (registry config) (imageName svc) (versionOf options s)))
             @ fst (pushPhase options sw s
                      (getImageTag (registry config) (imageName svc) (versionOf options s)))
             @ map (\<lambda>suffix. UpdateStep (s @ suffix)
                      \<lparr>p_status = Some Skipped, p_message = Some ''No credentials'',
                       p_duration = None\<rparr>)
                 [''-update'', ''-sync'', ''-release'', ''-wait-release''],
           Returned) \<and>
        (\<forall>st\<in>set (steps (apply_ops
                      (fst (deployService config options (makeClient options creds) sw s))
                      state)).
           step_id st \<in> set (map (\<lambda>suffix. s @ suffix)
                              [''-update'', ''-sync'', ''-release'', ''-wait-release'']) \<longrightarrow>
           status st = Skipped \<and> message st = Some ''No credentials''))"
proof -
  have none: "makeClient options creds = None" for creds
    using assms by (simp add: makeClient_def)
  have body: "dockerAvailable w \<longrightarrow>
        deployBody config options w =
          deployLoop config options None (at_service w) 0 (servicesToDeploy options config)"
    by (simp add: deployBody_def none servicesToDeploy_def)
  have build: "buildPhase config (options\<lparr>dryRun := False\<rparr>) sw s tag
                 = buildPhase config options sw s tag"
    by (simp add: buildPhase_def)
  have push: "pushPhase (options\<lparr>dryRun := False\<rparr>) sw s tag = pushPhase options sw s tag"
    by (simp add: pushPhase_def)
  have pass: "map_of (services config) s = Some svc \<longrightarrow>
        (\<forall>live. deployService config (options\<lparr>dryRun := live\<rparr>) faasClient sw s =
           seq [([SetCurrentService s], Returned),
                buildPhase config options sw s
                  (getImageTag (registry config) (imageName svc) (versionOf options s)),
                pushPhase options sw s
                  (getImageTag (registry config) (imageName svc) (versionOf options s)),
                faasPhase faasClient svc sw s
                  (getImageTag (registry config) (imageName svc) (versionOf options s))])"
    by (simp add: deployService_def Let_def versionOf_def buildPhase_def pushPhase_def)
  have skipped: "deployService config options (makeClient options creds) sw s =
          ([SetCurrentService s]
             @ fst (buildPhase config options sw s
                      (getImageTag (registry config) (imageName svc) (versionOf options s)))
             @ fst (pushPhase options sw s
                      (getImageTag (registry config) (imageName svc) (versionOf options s)))
             @ map (\<lambda>suffix. UpdateStep (s @ suffix)
                      \<lparr>p_status = Some Skipped, p_message = Some ''No credentials'',
                       p_duration = None\<rparr>)
                 [''-update'', ''-sync'', ''-release'', ''-wait-release''],
           Returned) \<and>
        (\<forall>st\<in>set (steps (apply_ops
                      (fst (deployService config options (makeClient options creds) sw s))
                      state)).
           step_id st \<in> set (map (\<lambda>suffix. s @ suffix)
                              [''-update'', ''-sync'', ''-release'', ''-wait-release'']) \<longrightarrow>
           status st = Skipped \<and> message st = Some ''No credentials'')"
    if h: "map_of (services config) s = Some svc"
      "skipBuild options \<or> proc_outcome (build_run sw) = Returned"
      "skipPush options \<or> proc_outcome (push_run sw) = Returned"
  proof -
    have pre: "(None :: FaaSClient option) = None \<or> functionId svc = []"
      by simp
    from deployService_skipping [OF h(1) pre h(2) h(3) refl]
    have a: "deployService config options None sw s =
          ([SetCurrentService s]
             @ fst (buildPhase config options sw s
                      (getImageTag (registry config) (imageName svc) (versionOf options s)))
             @ fst (pushPhase options sw s
                      (getImageTag (registry config) (imageName svc) (versionOf options s)))
             @ map (\<lambda>suffix. UpdateStep (s @ suffix)
                      \<lparr>p_status = Some Skipped, p_message = Some ''No credentials'',
                       p_duration = None\<rparr>)
                 [''-update'', ''-sync'', ''-release'', ''-wait-release''],
           Returned)"
      by simp
    from steps_after_skipping [OF h(1) pre h(2) h(3) refl, of state]
    have b: "\<forall>st\<in>set (steps (apply_ops (fst (deployService config options None sw s)) state)).
           step_id st \<in> set (map (\<lambda>suffix. s @ suffix)
                              [''-update'', ''-sync'', ''-release'', ''-wait-release'']) \<longrightarrow>
           status st = Skipped \<and> message st = Some ''No credentials''"
      by auto
    from a b show ?thesis
      unfolding none by blast
  qed
  from none [of creds] body build push pass skipped show ?thesis
    by blast
qed

theorem dry_run_builds_and_pushes_only_witness:
  "dryRun (demo_options\<lparr>opt_services := Some [''api''], dryRun := True\<rparr>) \<and>
   map_of (services demo_config) ''api'' = Some (demo_service ''demo-api'' ''fn-api'') \<and>
   proc_outcome (build_run ok_service_world) = Returned \<and>
   proc_outcome (push_run ok_service_world) = Returned \<and>
   makeClient (demo_options\<lparr>opt_services := Some [''api''], dryRun := True\<rparr>)
     (credentials demo_world) = None \<and>
   makeClient (demo_options\<lparr>opt_services := Some [''api'']\<rparr>) (credentials demo_world)
     \<noteq> None \<and>
   snd (deployService demo_config
          (demo_options\<lparr>opt_services := Some [''api''], dryRun := True\<rparr>)
          (makeClient (demo_options\<lparr>opt_services := Some [''api''], dryRun := True\<rparr>)
             (credentials demo_world))
          ok_service_world ''api'') = Returned \<and>
   map (\<lambda>st. (step_id st, status st, message st))
     (steps (runApp (Some demo_config)
        (demo_options\<lparr>opt_services := Some [''api''], dryRun := True\<rparr>) demo_world)) =
     [(''api-build'', Success, Some ''r.example.com/ns/demo-api:v1.0.1''),
      (''api-push'', Success, None),
      (''api-update'', Skipped, Some ''No credentials''),
      (''api-sync'', Skipped, Some ''No credentials''),
      (''api-release'', Skipped, Some ''No credentials''),
      (''api-wait-release'', Skipped, Some ''No credentials'')]"
proof -
  let ?options = "demo_options\<lparr>opt_services := Some [''api''], dryRun := True\<rparr>"
  let ?state = "planEffect (Some demo_config) ?options initialState"
  have dry: "dryRun ?options"
    by simp
  have live: "makeClient (demo_options\<lparr>opt_services := Some [''api'']\<rparr>)
      (credentials demo_world) \<noteq> None"
    by (simp add: makeClient_def demo_options_def demo_world_def)
  have svc: "map_of (services demo_config) ''api'' = Some (demo_service ''demo-api'' ''fn-api'')"
    by (simp add: demo_config_def)
  have ok: "proc_outcome (build_run ok_service_world) = Returned"
    "proc_outcome (push_run ok_service_world) = Returned"
    by (simp_all add: ok_service_world_def ok_proc_def)
  note T = dry_run_builds_and_pushes_only
    [where options = ?options and creds = "credentials demo_world" and w = demo_world
       and config = demo_config and sw = ok_service_world and s = "''api''"
       and svc = "demo_service ''demo-api'' ''fn-api''" and state = ?state, OF dry]
  from T have none: "makeClient ?options (credentials demo_world) = None"
    by blast
  from T svc ok
  have "deployService demo_config ?options (makeClient ?options (credentials demo_world))
      ok_service_world ''api'' =
      ([SetCurrentService ''api'']
         @ fst (buildPhase demo_config ?options ok_service_world ''api''
                  (getImageTag (registry demo_config)
                     (imageName (demo_service ''demo-api'' ''fn-api''))
                     (versionOf ?options ''api'')))
         @ fst (pushPhase ?options ok_service_world ''api''
                  (getImageTag (registry demo_config)
                     (imageName (demo_service ''demo-api'' ''fn-api''))
                     (versionOf ?options ''api'')))
         @ map (\<lambda>suffix. UpdateStep (''api'' @ suffix)
                  \<lparr>p_status = Some Skipped, p_message = Some ''No credentials'',
                   p_duration = None\<rparr>)
             [''-update'', ''-sync'', ''-release'', ''-wait-release''],
       Returned)"
    by blast
  then have returned: "snd (deployService demo_config ?options
      (makeClient ?options (credentials demo_world)) ok_service_world ''api'') = Returned"
    by simp
  have after: "map (\<lambda>st. (step_id st, status st, message st))
     (steps (runApp (Some demo_config) ?options demo_world)) =
     [(''api-build'', Success, Some ''r.example.com/ns/demo-api:v1.0.1''),
      (''api-push'', Success, None),
      (''api-update'', Skipped, Some ''No credentials''),
      (''api-sync'', Skipped, Some ''No credentials''),
      (''api-release'', Skipped, Some ''No credentials''),
      (''api-wait-release'', Skipped, Some ''No credentials'')]"
    by (simp add: runApp_def deployEffect_def planEffect_def initialState_def
        steps_apply_ops updates_deploy deployBody_def makeClient_def
        demo_world_def servicesToDeploy_def demo_options_def serviceSteps_def mkStep_def
        deployLoop_Cons deployLoop_Nil seq_Cons updates_for_append
        updates_deployService snd_deployService updates_buildPhase updates_pushPhase
        snd_buildPhase snd_pushPhase faasPhase_skipped
        buildServiceImage_def buildDockerImage_def demo_config_def demo_service_def
        ok_service_world_def ok_proc_def spread_def set_status_def getImageTag_def
        versionOf_def or_else_def Let_def)
  from dry svc ok none live returned after show ?thesis
    by blast
qed


section \<open>A run that a failed push aborts\<close>

lemma stepIds_nth:
  "j < 6 \<Longrightarrow> stepIds s ! j = step_id (serviceSteps options s ! j)"
  using step_ids_serviceSteps [of options s] length_serviceSteps [of options s]
  by (metis nth_map)

lemma planned_id:
  assumes "a < length svcs" and "j < 6"
  shows "map step_id (initialSteps options svcs) ! (6 * a + j) = stepIds (svcs ! a) ! j"
proof -
  have "6 * a + j < length (initialSteps options svcs)"
    using assms by (simp add: length_initialSteps)
  then show ?thesis
    using assms by (simp add: initialSteps_nth stepIds_nth [where options = options])
qed

lemma stepIds_apart:
  assumes "distinct (map step_id (initialSteps options svcs))"
    and "a < length svcs" and "b < length svcs" and "a \<noteq> b"
  shows "set (stepIds (svcs ! a)) \<inter> set (stepIds (svcs ! b)) = {}"
proof (rule ccontr)
  assume "set (stepIds (svcs ! a)) \<inter> set (stepIds (svcs ! b)) \<noteq> {}"
  then obtain x where xa: "x \<in> set (stepIds (svcs ! a))" and xb: "x \<in> set (stepIds (svcs ! b))"
    by blast
  have six: "length (stepIds s) = 6" for s
    by (simp add: stepIds_def)
  from xa obtain j1 where j1: "j1 < 6" "stepIds (svcs ! a) ! j1 = x"
    by (metis in_set_conv_nth six)
  from xb obtain j2 where j2: "j2 < 6" "stepIds (svcs ! b) ! j2 = x"
    by (metis in_set_conv_nth six)
  let ?ids = "map step_id (initialSteps options svcs)"
  have la: "6 * a + j1 < length ?ids" and lb: "6 * b + j2 < length ?ids"
    using assms(2,3) j1(1) j2(1) by (simp_all add: length_initialSteps)
  have "?ids ! (6 * a + j1) = ?ids ! (6 * b + j2)"
    unfolding planned_id [OF assms(2) j1(1), of options]
      planned_id [OF assms(3) j2(1), of options]
    using j1(2) j2(2) by simp
  with nth_eq_iff_index_eq [OF assms(1) la lb] have "6 * a + j1 = 6 * b + j2"
    by blast
  with j1(1) j2(1) assms(4) show False
    by arith
qed

lemma in_prefix_ids:
  "x \<in> set (concat (map stepIds (take i svcs))) \<Longrightarrow>
     \<exists>a<i. a < length svcs \<and> x \<in> set (stepIds (svcs ! a))"
proof -
  assume "x \<in> set (concat (map stepIds (take i svcs)))"
  then obtain s where s: "s \<in> set (take i svcs)" "x \<in> set (stepIds s)"
    by auto
  from s(1) obtain a where "a < length (take i svcs)" "take i svcs ! a = s"
    by (metis in_set_conv_nth)
  with s(2) show ?thesis
    by (intro exI [where x = a]) simp
qed

lemma earlier_passes_untouched:
  assumes "distinct (map step_id (initialSteps options svcs))"
    and "b < length svcs" and "i \<le> b" and "x \<in> set (stepIds (svcs ! b))"
  shows "updates_for x (fst (deployLoop config options faasClient ws start (take i svcs))) = []"
proof (rule deployLoop_untouched, rule notI)
  assume "x \<in> set (concat (map stepIds (take i svcs)))"
  from in_prefix_ids [OF this] obtain a where a: "a < i" "a < length svcs"
    "x \<in> set (stepIds (svcs ! a))"
    by blast
  with assms(3) have "a \<noteq> b" by simp
  from stepIds_apart [OF assms(1) a(2) assms(2) this] a(3) assms(4) show False
    by blast
qed

lemma deployLoop_stops:
  assumes "i < length svcs"
    and "\<forall>j<i. snd (deployService config options faasClient (ws (start + j)) (svcs ! j))
           = Returned"
    and "snd (deployService config options faasClient (ws (start + i)) (svcs ! i)) = Threw m"
  shows "snd (deployLoop config options faasClient ws start svcs) = Threw m \<and>
         (\<forall>x. updates_for x (fst (deployLoop config options faasClient ws start svcs)) =
               updates_for x (fst (deployLoop config options faasClient ws start (take i svcs)))
                 @ updates_for x
                     (fst (deployService config options faasClient (ws (start + i)) (svcs ! i))))"
  using assms
proof (induction svcs arbitrary: i start)
  case Nil
  then show ?case by simp
next
  case (Cons s rest)
  show ?case
  proof (cases i)
    case 0
    with Cons.prems(3) show ?thesis
      by (simp add: deployLoop_Cons deployLoop_Nil seq_Cons)
  next
    case (Suc k)
    from Cons.prems(2) Suc
    have here: "snd (deployService config options faasClient (ws start) s) = Returned"
      by (metis add.right_neutral nth_Cons_0 zero_less_Suc)
    have k: "k < length rest"
      using Cons.prems(1) Suc by simp
    have before: "\<forall>j<k. snd (deployService config options faasClient (ws (Suc start + j))
                              (rest ! j)) = Returned"
    proof (intro allI impI)
      fix j assume "j < k"
      then have "Suc j < i" using Suc by simp
      with Cons.prems(2)
      have "snd (deployService config options faasClient (ws (start + Suc j))
                   ((s # rest) ! Suc j)) = Returned"
        by blast
      then show "snd (deployService config options faasClient (ws (Suc start + j)) (rest ! j))
                   = Returned"
        by simp
    qed
    have at: "snd (deployService config options faasClient (ws (Suc start + k)) (rest ! k))
                = Threw m"
      using Cons.prems(3) Suc by simp
    from Cons.IH [OF k before at] here Suc show ?thesis
      by (simp add: deployLoop_Cons seq_Cons updates_for_append)
  qed
qed

lemma phase_after_catch:
  "phase (apply_ops (ops @ [SetPhase PError, SetError m, AddLog l]) s) = PError \<and>
   error (apply_ops (ops @ [SetPhase PError, SetError m, AddLog l]) s) = Some m"
  by (simp add: apply_ops_append apply_ops_Cons apply_ops_Nil)

lemma failing_pass:
  assumes "map_of (services config) s = Some svc"
    and "\<not> skipBuild options" and "\<not> skipPush options"
    and "proc_outcome (build_run sw) = Returned"
    and "proc_outcome (push_run sw) = Threw m"
  shows "snd (deployService config options faasClient sw s) = Threw m"
    and "updates_for x (fst (deployService config options faasClient sw s)) =
           (if x = s @ ''-build'' then
              [set_status Running,
               \<lparr>p_status = Some Success,
                p_message = Some (getImageTag (registry config) (imageName svc)
                                    (versionOf options s)),
                p_duration = Some (proc_elapsed (build_run sw))\<rparr>]
            else if x = s @ ''-push'' then [set_status Running]
            else [])"
  using assms
  by (simp_all add: snd_deployService updates_deployService Let_def snd_buildPhase
      snd_pushPhase snd_buildServiceImage updates_buildPhase updates_pushPhase)

lemma below_six: "j < 6 \<Longrightarrow> j = 0 \<or> j = 1 \<or> j = 2 \<or> j = 3 \<or> j = 4 \<or> j = (5::nat)"
  by arith

lemma steps_when_push_fails:
  assumes i: "i < length (servicesToDeploy options config)"
    and apart: "distinct (map step_id (initialSteps options (servicesToDeploy options config)))"
    and docker: "dockerAvailable w"
    and flags: "\<not> skipBuild options" "\<not> skipPush options"
    and before: "\<forall>j<i. snd (deployService config options (makeClient options (credentials w))
                             (at_service w j) (servicesToDeploy options config ! j)) = Returned"
    and svc: "map_of (services config) (servicesToDeploy options config ! i) = Some svc"
    and build: "proc_outcome (build_run (at_service w i)) = Returned"
    and push: "proc_outcome (push_run (at_service w i)) = Threw m"
  shows "runApp (Some config) options w =
           apply_ops
             (fst (deployLoop config options (makeClient options (credentials w))
                     (at_service w) 0 (servicesToDeploy options config))
                @ [SetPhase PError, SetError m, AddLog (LogError m)])
             (planEffect (Some config) options initialState)"
    and "\<And>b j. i \<le> b \<Longrightarrow> b < length (servicesToDeploy options config) \<Longrightarrow> j < 6 \<Longrightarrow>
           steps (runApp (Some config) options w) ! (6 * b + j) =
             foldl spread (serviceSteps options (servicesToDeploy options config ! b) ! j)
               (if b = i \<and> j = 0 then
                  [set_status Running,
                   \<lparr>p_status = Some Success,
                    p_message = Some (getImageTag (registry config) (imageName svc)
                                  (versionOf options (servicesToDeploy options config ! i))),
                    p_duration = Some (proc_elapsed (build_run (at_service w i)))\<rparr>]
                else if b = i \<and> j = 1 then [set_status Running]
                else [])"
proof -
  let ?svcs = "servicesToDeploy options config"
  let ?client = "makeClient options (credentials w)"
  let ?loop = "deployLoop config options ?client (at_service w) 0 ?svcs"
  let ?pass = "deployService config options ?client (at_service w i) (?svcs ! i)"
  let ?plan = "planEffect (Some config) options initialState"
  note pass = failing_pass [OF svc flags build push, where faasClient = ?client]
  have before': "\<forall>j<i. snd (deployService config options ?client (at_service w (0 + j))
                               (?svcs ! j)) = Returned"
    using before by simp
  have at: "snd (deployService config options ?client (at_service w (0 + i)) (?svcs ! i))
              = Threw m"
    using pass(1) by simp
  from deployLoop_stops [OF i before' at]
  have thrown: "snd ?loop = Threw m"
    and split: "\<And>x. updates_for x (fst ?loop) =
        updates_for x (fst (deployLoop config options ?client (at_service w) 0 (take i ?svcs)))
          @ updates_for x (fst ?pass)"
    by simp_all
  have body: "deployBody config options w = (fst ?loop, Threw m)"
    using docker thrown by (simp add: deployBody_def prod_eq_iff)
  have ops: "deploy config options w
               = fst ?loop @ [SetPhase PError, SetError m, AddLog (LogError m)]"
    by (simp add: deploy_def body)
  have some: "length (steps ?plan) \<noteq> 0"
    using i by (auto simp: steps_planEffect length_initialSteps)
  show run: "runApp (Some config) options w =
      apply_ops (fst ?loop @ [SetPhase PError, SetError m, AddLog (LogError m)]) ?plan"
    using some by (simp add: runApp_def deployEffect_def ops planEffect_def initialState_def)
  fix b j :: nat
  assume b: "i \<le> b" "b < length ?svcs" and j: "j < 6"
  let ?k = "6 * b + j"
  let ?x = "stepIds (?svcs ! b) ! j"
  have k: "?k < length (initialSteps options ?svcs)"
    using b j by (simp add: length_initialSteps)
  have planned: "steps ?plan ! ?k = serviceSteps options (?svcs ! b) ! j"
    using b j by (simp add: steps_planEffect initialSteps_nth)
  have x: "step_id (serviceSteps options (?svcs ! b) ! j) = ?x"
    using j by (simp add: stepIds_nth [where options = options])
  have mine: "?x \<in> set (stepIds (?svcs ! b))"
    using j by (intro nth_mem) (simp add: stepIds_def)
  have earlier: "updates_for ?x
      (fst (deployLoop config options ?client (at_service w) 0 (take i ?svcs))) = []"
    by (rule earlier_passes_untouched [OF apart b(2) b(1) mine])
  have here: "updates_for ?x (fst ?pass) =
      (if b = i \<and> j = 0 then
         [set_status Running,
          \<lparr>p_status = Some Success,
           p_message = Some (getImageTag (registry config) (imageName svc)
                               (versionOf options (?svcs ! i))),
           p_duration = Some (proc_elapsed (build_run (at_service w i)))\<rparr>]
       else if b = i \<and> j = 1 then [set_status Running]
       else [])"
  proof (cases "b = i")
    case True
    from below_six [OF j] show ?thesis
      unfolding pass(2) True
      by (elim disjE) (simp_all add: stepIds_def)
  next
    case False
    from stepIds_apart [OF apart b(2) i False] mine
    have "?x \<notin> set (stepIds (?svcs ! i))"
      by blast
    from deployService_untouched [OF this] False show ?thesis
      by simp
  qed
  have "steps (runApp (Some config) options w) ! ?k =
          foldl spread (steps ?plan ! ?k)
            (updates_for (step_id (steps ?plan ! ?k))
               (fst ?loop @ [SetPhase PError, SetError m, AddLog (LogError m)]))"
    unfolding run steps_apply_ops using k by (simp add: steps_planEffect)
  also have "\<dots> = foldl spread (serviceSteps options (?svcs ! b) ! j)
                    (updates_for ?x (fst ?pass))"
    unfolding planned x by (simp add: updates_for_append split earlier)
  finally show "steps (runApp (Some config) options w) ! ?k =
      foldl spread (serviceSteps options (?svcs ! b) ! j)
        (if b = i \<and> j = 0 then
           [set_status Running,
            \<lparr>p_status = Some Success,
             p_message = Some (getImageTag (registry config) (imageName svc)
                                 (versionOf options (?svcs ! i))),
             p_duration = Some (proc_elapsed (build_run (at_service w i)))\<rparr>]
         else if b = i \<and> j = 1 then [set_status Running]
         else [])"
    unfolding here .
qed

text \<open>
  Claim C1, as amended. Let build and push not be skipped and the planned step identifiers
  be pairwise distinct. If the passes before a service return and, in the pass of that
  service, the build succeeds and the push subprocess fails, the run aborts at once: the
  service's build step is success, its push step stays running and gets no message (the
  orchestrator never sets a step to error), every later step of the service and every
  step of every later service is still pending, and the run ends in the phase error with
  the message of the push failure as its error.
\<close>

theorem push_failure_aborts_run:
  assumes "i < length (servicesToDeploy options config)"
    and "distinct (map step_id (initialSteps options (servicesToDeploy options config)))"
    and "dockerAvailable w"
    and "\<not> skipBuild options" and "\<not> skipPush options"
    and "\<forall>j<i. snd (deployService config options (makeClient options (credentials w))
                       (at_service w j) (servicesToDeploy options config ! j)) = Returned"
    and "map_of (services config) (servicesToDeploy options config ! i) = Some svc"
    and "proc_outcome (build_run (at_service w i)) = Returned"
    and "proc_outcome (push_run (at_service w i)) = Threw m"
  shows "phase (runApp (Some config) options w) = PError \<and>
         error (runApp (Some config) options w) = Some m \<and>
         length (steps (runApp (Some config) options w))
           = 6 * length (servicesToDeploy options config) \<and>
         status (steps (runApp (Some config) options w) ! (6 * i)) = Success \<and>
         status (steps (runApp (Some config) options w) ! (6 * i + 1)) = Running \<and>
         message (steps (runApp (Some config) options w) ! (6 * i + 1)) = None \<and>
         (\<forall>k. 6 * i + 2 \<le> k \<and> k < 6 * length (servicesToDeploy options config) \<longrightarrow>
              status (steps (runApp (Some config) options w) ! k) = Pending)"
proof -
  let ?svcs = "servicesToDeploy options config"
  let ?final = "runApp (Some config) options w"
  note run = steps_when_push_fails(1) [OF assms]
  note at = steps_when_push_fails(2) [OF assms]
  have ends: "phase ?final = PError \<and> error ?final = Some m"
    unfolding run by (rule phase_after_catch)
  have size: "length (steps ?final) = 6 * length ?svcs"
    unfolding run by (simp add: steps_apply_ops steps_planEffect length_initialSteps)
  have built: "status (steps ?final ! (6 * i)) = Success"
    using at [of i 0] assms(1)
    by (simp add: serviceSteps_def mkStep_def spread_def set_status_def)
  have pushing: "status (steps ?final ! (6 * i + 1)) = Running \<and>
      message (steps ?final ! (6 * i + 1)) = None"
    using at [of i 1] assms(1)
    by (simp add: serviceSteps_def mkStep_def spread_def set_status_def)
  have waiting: "status (steps ?final ! k) = Pending"
    if k: "6 * i + 2 \<le> k" "k < 6 * length ?svcs" for k
  proof -
    define b where "b = k div 6"
    define j where "j = k mod 6"
    have kbj: "k = 6 * b + j" and j: "j < 6"
      by (simp_all add: b_def j_def)
    have b: "i \<le> b" "b < length ?svcs"
      using k by (simp_all add: b_def less_mult_imp_div_less mult.commute)
    have later: "b = i \<longrightarrow> 2 \<le> j"
      using k(1) kbj by arith
    from below_six [OF j] later assms(4,5) show ?thesis
      unfolding kbj at [OF b j]
      by (elim disjE) (simp_all add: serviceSteps_def mkStep_def)
  qed
  from ends size built pushing waiting show ?thesis
    by blast
qed

theorem push_failure_aborts_run_witness:
  "proc_outcome (build_run (at_service push_fails_world 0)) = Returned \<and>
   proc_outcome (push_run (at_service push_fails_world 0))
     = Threw ''Command failed with exit code 1: docker push'' \<and>
   phase (runApp (Some demo_config) demo_options push_fails_world) = PError \<and>
   error (runApp (Some demo_config) demo_options push_fails_world)
     = Some ''Command failed with exit code 1: docker push'' \<and>
   length (steps (runApp (Some demo_config) demo_options push_fails_world)) = 12 \<and>
   status (steps (runApp (Some demo_config) demo_options push_fails_world) ! 0) = Success \<and>
   status (steps (runApp (Some demo_config) demo_options push_fails_world) ! 1) = Running \<and>
   status (steps (runApp (Some demo_config) demo_options push_fails_world) ! 2) = Pending \<and>
   status (steps (runApp (Some demo_config) demo_options push_fails_world) ! 11) = Pending"
proof -
  have svcs: "servicesToDeploy demo_options demo_config = [''api'', ''worker'']"
    by (simp add: servicesToDeploy_def demo_options_def demo_config_def)
  have i: "0 < length (servicesToDeploy demo_options demo_config)"
    by (simp add: svcs)
  have apart: "distinct (map step_id
      (initialSteps demo_options (servicesToDeploy demo_options demo_config)))"
    by (simp add: svcs serviceSteps_def mkStep_def)
  have docker: "dockerAvailable push_fails_world"
    by (simp add: push_fails_world_def demo_world_def)
  have flags: "\<not> skipBuild demo_options" "\<not> skipPush demo_options"
    by (simp_all add: demo_options_def)
  have before: "\<forall>j<0. snd (deployService demo_config demo_options
      (makeClient demo_options (credentials push_fails_world))
      (at_service push_fails_world j) (servicesToDeploy demo_options demo_config ! j)) = Returned"
    by simp
  have svc: "map_of (services demo_config) (servicesToDeploy demo_options demo_config ! 0)
      = Some (demo_service ''demo-api'' ''fn-api'')"
    unfolding svcs by (simp add: demo_config_def)
  have build: "proc_outcome (build_run (at_service push_fails_world 0)) = Returned"
    by (simp add: push_fails_world_def ok_service_world_def ok_proc_def)
  have push: "proc_outcome (push_run (at_service push_fails_world 0))
      = Threw ''Command failed with exit code 1: docker push''"
    by (simp add: push_fails_world_def)
  note T = push_failure_aborts_run [OF i apart docker flags before svc build push]
  from T have rest: "status (steps (runApp (Some demo_config) demo_options push_fails_world) ! 2)
        = Pending"
      "status (steps (runApp (Some demo_config) demo_options push_fails_world) ! 11) = Pending"
    by (simp_all add: svcs)
  from T build push rest show ?thesis
    by (simp add: svcs)
qed

text \<open>
  Claim C1 as it stands fails: after the failed push the push step of the service is
  running, not error, and has no message.
\<close>

theorem push_failure_counterexample:
  "proc_outcome (push_run (at_service push_fails_world 0))
     = Threw ''Command failed with exit code 1: docker push'' \<and>
   phase (runApp (Some demo_config) demo_options push_fails_world) = PError \<and>
   step_id (steps (runApp (Some demo_config) demo_options push_fails_world) ! 1)
     = ''api-push'' \<and>
   status (steps (runApp (Some demo_config) demo_options push_fails_world) ! 1) = Running \<and>
   status (steps (runApp (Some demo_config) demo_options push_fails_world) ! 1) \<noteq> Error \<and>
   message (steps (runApp (Some demo_config) demo_options push_fails_world) ! 1) = None"
proof -
  have svcs: "servicesToDeploy demo_options demo_config = [''api'', ''worker'']"
    by (simp add: servicesToDeploy_def demo_options_def demo_config_def)
  have i: "0 < length (servicesToDeploy demo_options demo_config)"
    by (simp add: svcs)
  have apart: "distinct (map step_id
      (initialSteps demo_options (servicesToDeploy demo_options demo_config)))"
    by (simp add: svcs serviceSteps_def mkStep_def)
  have docker: "dockerAvailable push_fails_world"
    by (simp add: push_fails_world_def demo_world_def)
  have flags: "\<not> skipBuild demo_options" "\<not> skipPush demo_options"
    by (simp_all add: demo_options_def)
  have before: "\<forall>j<0. snd (deployService demo_config demo_options
      (makeClient demo_options (credentials push_fails_world))
      (at_service push_fails_world j) (servicesToDeploy demo_options demo_config ! j)) = Returned"
    by simp
  have svc: "map_of (services demo_config) (servicesToDeploy demo_options demo_config ! 0)
      = Some (demo_service ''demo-api'' ''fn-api'')"
    unfolding svcs by (simp add: demo_config_def)
  have build: "proc_outcome (build_run (at_service push_fails_world 0)) = Returned"
    by (simp add: push_fails_world_def ok_service_world_def ok_proc_def)
  have push: "proc_outcome (push_run (at_service push_fails_world 0))
      = Threw ''Command failed with exit code 1: docker push''"
    by (simp add: push_fails_world_def)
  note run = steps_when_push_fails(1) [OF i apart docker flags before svc build push]
  note at = steps_when_push_fails(2) [OF i apart docker flags before svc build push,
      of 0 1, simplified]
  have ends: "phase (runApp (Some demo_config) demo_options push_fails_world) = PError"
    unfolding run using phase_after_catch by blast
  from at have step: "steps (runApp (Some demo_config) demo_options push_fails_world) ! 1 =
      foldl spread (serviceSteps demo_options ''api'' ! 1) [set_status Running]"
    by (simp add: svcs)
  from push ends show ?thesis
    unfolding step
    by (simp add: serviceSteps_def mkStep_def spread_def set_status_def demo_options_def)
qed


end
